theory Spec2Isabelle
  imports Main "HOL-Library.Word" "HOL-Library.Multiset"
begin

section \<open>Errors, formatting and logging\<close>

text \<open>
  Go errors are values built by \<^verbatim>\<open>fmt.Errorf\<close>. \<open>Errorf m\<close> is
  \<^verbatim>\<open>fmt.Errorf(m)\<close>, \<open>Wrapf m e\<close> is \<^verbatim>\<open>fmt.Errorf(m + ": %w", e)\<close>,
  \<open>ErrNoRows\<close> is the sentinel \<^verbatim>\<open>pgx.ErrNoRows\<close> and \<open>External s\<close> is any other
  error a collaborator (pgx, NATS, encoding/json) returns, with message \<open>s\<close>.
\<close>

datatype error = ErrNoRows | External string | Errorf string | Wrapf string error

fun Error :: "error \<Rightarrow> string" where
  "Error ErrNoRows = ''no rows in result set''"
| "Error (External s) = s"
| "Error (Errorf m) = m"
| "Error (Wrapf m e) = m @ '': '' @ Error e"

text \<open>The verb \<^verbatim>\<open>%d\<close> of \<^verbatim>\<open>fmt\<close>: decimal digits, with a minus sign below zero.\<close>

function itoa :: "nat \<Rightarrow> string" where
  "itoa n = (if n < 10 then [''0123456789'' ! n]
             else itoa (n div 10) @ [''0123456789'' ! (n mod 10)])"
  by pat_completeness auto
termination
  by (relation "measure (\<lambda>n. n)") auto

declare itoa.simps [simp del]

definition Sprintf_d :: "int \<Rightarrow> string" where
  "Sprintf_d i = (if i < 0 then ''-'' @ itoa (nat (- i)) else itoa (nat i))"

datatype level = LDebug | LInfo | LError

type_synonym log_entry = "level \<times> string \<times> (string \<times> string) list"

section \<open>Data model\<close>

text \<open>
  The generated package \<^verbatim>\<open>graph/model\<close> declares \<^verbatim>\<open>VerificationStatus\<close> and
  \<^verbatim>\<open>VerificationDataType\<close> as string types (the code converts to and from
  \<^verbatim>\<open>string\<close>), with one constant per value of the GraphQL schema.
\<close>

type_synonym VerificationStatus = string
type_synonym VerificationDataType = string
type_synonym time = int

definition VerificationStatusInProcess :: VerificationStatus where
  "VerificationStatusInProcess = ''IN_PROCESS''"

definition VerificationStatusCompleted :: VerificationStatus where
  "VerificationStatusCompleted = ''COMPLETED''"

definition VerificationDataTypeBasicInformation :: VerificationDataType where
  "VerificationDataTypeBasicInformation = ''BASIC_INFORMATION''"

record VerificationData =
  vd_DataType :: VerificationDataType
  vd_Data :: string
  vd_CreatedAt :: string

record Verification =
  ID :: string
  Inn :: string
  Status :: VerificationStatus
  AuthorEmail :: string
  CompanyID :: "string option"
  RequestedDataTypes :: "VerificationDataType list"
  Data :: "VerificationData list"
  CreatedAt :: string
  UpdatedAt :: string

record CreateVerificationMessage =
  cvm_VerificationID :: string
  cvm_INN :: string
  cvm_RequestedTypes :: "VerificationDataType list"
  cvm_AuthorEmail :: string

record VerificationCompletedMessage =
  vcm_VerificationID :: string
  vcm_Status :: string

subsection \<open>The relational store (migrations 001, 002, 004)\<close>

record verifications_row =
  v_id :: string
  v_inn :: string
  v_status :: string
  v_author_email :: string
  v_company_id :: "string option"
  v_requested_data_types :: "string list"
  v_created_at :: time
  v_updated_at :: time

record verification_data_row =
  d_id :: string
  d_verification_id :: string
  d_data_type :: string
  d_data :: "string option"
  d_data_hash :: "string option"
  d_created_at :: time

record verification_data_cache_row =
  c_id :: string
  c_data_hash :: string
  c_data :: string
  c_created_at :: time

datatype sql_query =
    SelectVerificationByID string
  | SelectDataByVerification string
  | SelectAllVerifications "32 word option" "32 word option"
  | SelectCacheByHash string

text \<open>
  The state every operation threads: the three tables, the queries sent to the pool so
  far, the messages the bus accepted, the subjects subscribed to, and the log.
\<close>

record world =
  verifications :: "verifications_row list"
  verification_data :: "verification_data_row list"
  verification_data_cache :: "verification_data_cache_row list"
  queries :: "sql_query list"
  published :: "(string \<times> string) list"
  subscriptions :: "string list"
  logs :: "log_entry list"

text \<open>
  The collaborators outside the repository, as parameters.
  \<^item> \<open>json_Marshal\<close>, \<open>json_Unmarshal\<close>: what \<^verbatim>\<open>encoding/json\<close> returns.
  \<^item> \<open>conn_Publish\<close>, \<open>conn_Subscribe\<close>: the error, if any, of the NATS connection.
  \<^item> \<open>Query_err\<close>: the error, if any, that the pool hands back for a query: from
    \<^verbatim>\<open>Query\<close> itself, or through \<^verbatim>\<open>QueryRow(...).Scan\<close>, which reports every error of
    its query.
  \<^item> \<open>Rows_err\<close>: for a query sent with \<^verbatim>\<open>Query\<close>, the error that ends its result set
    after so many rows. pgx keeps it in \<^verbatim>\<open>rows.Err()\<close>; \<^verbatim>\<open>rows.Next()\<close> only answers
    false.
  \<^item> \<open>Scan_err\<close>: the error \<^verbatim>\<open>Scan\<close> returns for the row with a given primary key.
  \<^item> \<open>uuid_in\<close>: the error, if any, with which a text is refused as a value of type
    \<^verbatim>\<open>uuid\<close>.
  \<^item> \<open>RFC3339\<close>: the rendering \<^verbatim>\<open>time.Format(time.RFC3339)\<close>.
\<close>

record env =
  json_Marshal :: "CreateVerificationMessage \<Rightarrow> error + string"
  json_Unmarshal :: "string \<Rightarrow> error + VerificationCompletedMessage"
  conn_Publish :: "string \<Rightarrow> string \<Rightarrow> error option"
  conn_Subscribe :: "string \<Rightarrow> error option"
  Query_err :: "sql_query \<Rightarrow> error option"
  Rows_err :: "sql_query \<Rightarrow> (nat \<times> error) option"
  Scan_err :: "string \<Rightarrow> error option"
  uuid_in :: "string \<Rightarrow> error option"
  RFC3339 :: "time \<Rightarrow> string"

definition logger :: "level \<Rightarrow> string \<Rightarrow> (string \<times> string) list \<Rightarrow> world \<Rightarrow> world" where
  "logger l m kvs w = w\<lparr>logs := logs w @ [(l, m, kvs)]\<rparr>"

section \<open>Messaging: the NATS client\<close>

definition PublishVerificationRequest :: "env \<Rightarrow> Verification \<Rightarrow> world \<Rightarrow> error option \<times> world" where
  "PublishVerificationRequest e verification w =
     (let msg = \<lparr>cvm_VerificationID = ID verification, cvm_INN = Inn verification,
                 cvm_RequestedTypes = RequestedDataTypes verification,
                 cvm_AuthorEmail = AuthorEmail verification\<rparr>
      in case json_Marshal e msg of
           Inl err \<Rightarrow>
             (Some (Wrapf ''failed to marshal verification request'' err),
              logger LError ''failed to marshal verification request'' [(''error'', Error err)] w)
         | Inr data \<Rightarrow>
             (case conn_Publish e ''verification.create'' data of
                Some err \<Rightarrow>
                  (Some (Wrapf ''failed to publish verification request'' err),
                   logger LError ''failed to publish verification request''
                     [(''error'', Error err), (''verification_id'', ID verification)] w)
              | None \<Rightarrow>
                  (None,
                   logger LInfo ''verification request published''
                     [(''verification_id'', ID verification)]
                     (w\<lparr>published := published w @ [(''verification.create'', data)]\<rparr>))))"

text \<open>
  The callback that \<^verbatim>\<open>SubscribeToVerificationCompleted\<close> registers: it runs once for
  every message delivered on the subject, with the message's payload.
\<close>

definition completed_callback ::
  "env \<Rightarrow> (Verification \<Rightarrow> world \<Rightarrow> world) \<Rightarrow> string \<Rightarrow> world \<Rightarrow> world" where
  "completed_callback e handler msg_Data w =
     (case json_Unmarshal e msg_Data of
        Inl err \<Rightarrow>
          logger LError ''failed to unmarshal verification completed message''
            [(''error'', Error err)] w
      | Inr completedMsg \<Rightarrow>
          (let verification = \<lparr>ID = vcm_VerificationID completedMsg, Inn = '''',
                                Status = vcm_Status completedMsg, AuthorEmail = '''',
                                CompanyID = None, RequestedDataTypes = [], Data = [],
                                CreatedAt = '''', UpdatedAt = ''''\<rparr>
           in logger LInfo ''verification completed message processed''
                [(''verification_id'', vcm_VerificationID completedMsg),
                 (''status'', vcm_Status completedMsg)]
                (handler verification w)))"

definition SubscribeToVerificationCompleted :: "env \<Rightarrow> world \<Rightarrow> error option \<times> world" where
  "SubscribeToVerificationCompleted e w =
     (case conn_Subscribe e ''verification.completed'' of
        Some err \<Rightarrow>
          (Some (Wrapf ''failed to subscribe to verification completed'' err),
           logger LError ''failed to subscribe to verification completed'' [(''error'', Error err)] w)
      | None \<Rightarrow>
          (None,
           logger LInfo ''subscribed to verification completed messages'' []
             (w\<lparr>subscriptions := subscriptions w @ [''verification.completed'']\<rparr>)))"

text \<open>The handler \<^verbatim>\<open>main\<close> passes to the subscription: it writes one log line.\<close>

definition main_handler :: "Verification \<Rightarrow> world \<Rightarrow> world" where
  "main_handler verification w =
     logger LInfo ''Received verification completed notification''
       [(''verification_id'', ID verification), (''status'', Status verification)] w"

section \<open>Repository\<close>

subsection \<open>The content cache\<close>

text \<open>
  \<^verbatim>\<open>QueryRow(...).Scan(&data)\<close> on \<^verbatim>\<open>verification_data_cache\<close>: the pool's
  error, \<^verbatim>\<open>pgx.ErrNoRows\<close> when no row has the hash, the scan error of the first row, or
  that row.
\<close>

definition QueryRow_cache :: "env \<Rightarrow> string \<Rightarrow> world \<Rightarrow> error + verification_data_cache_row" where
  "QueryRow_cache e hash w =
     (case Query_err e (SelectCacheByHash hash) of
        Some err \<Rightarrow> Inl err
      | None \<Rightarrow>
          (case filter (\<lambda>r. c_data_hash r = hash) (verification_data_cache w) of
             [] \<Rightarrow> Inl ErrNoRows
           | r # _ \<Rightarrow> (case Scan_err e (c_id r) of Some err \<Rightarrow> Inl err | None \<Rightarrow> Inr r)))"

definition GetDataByHash :: "env \<Rightarrow> string \<Rightarrow> world \<Rightarrow> (error + string) \<times> world" where
  "GetDataByHash e hash w =
     (let w0 = w\<lparr>queries := queries w @ [SelectCacheByHash hash]\<rparr>
      in case QueryRow_cache e hash w of
           Inl err \<Rightarrow>
             (Inl (Wrapf (''data not found in cache for hash '' @ hash) err),
              logger LError ''data not found in cache'' [(''hash'', hash), (''error'', Error err)] w0)
         | Inr r \<Rightarrow>
             (Inr (c_data r), logger LDebug ''data retrieved from cache'' [(''hash'', hash)] w0))"

subsection \<open>Verifications\<close>

text \<open>
  \<^verbatim>\<open>QueryRow(ctx, query, id).Scan(...)\<close> on \<^verbatim>\<open>verifications\<close>. The column
  \<^verbatim>\<open>id\<close> has type \<^verbatim>\<open>uuid\<close>: a text that is no UUID is refused with an error,
  which \<^verbatim>\<open>Scan\<close> returns.
\<close>

definition QueryRow_verification :: "env \<Rightarrow> string \<Rightarrow> world \<Rightarrow> error + verifications_row" where
  "QueryRow_verification e vid w =
     (case Query_err e (SelectVerificationByID vid) of
        Some err \<Rightarrow> Inl err
      | None \<Rightarrow>
          (case uuid_in e vid of
             Some err \<Rightarrow> Inl err
           | None \<Rightarrow>
               (case filter (\<lambda>r. v_id r = vid) (verifications w) of
                  [] \<Rightarrow> Inl ErrNoRows
                | r # _ \<Rightarrow>
                    (case Scan_err e (v_id r) of Some err \<Rightarrow> Inl err | None \<Rightarrow> Inr r))))"

definition scan_verification :: "env \<Rightarrow> verifications_row \<Rightarrow> Verification" where
  "scan_verification e r =
     \<lparr>ID = v_id r, Inn = v_inn r, Status = v_status r, AuthorEmail = v_author_email r,
      CompanyID = v_company_id r, RequestedDataTypes = v_requested_data_types r, Data = [],
      CreatedAt = RFC3339 e (v_created_at r), UpdatedAt = RFC3339 e (v_updated_at r)\<rparr>"

text \<open>
  \<^verbatim>\<open>rows.Scan(&vd.DataType, &vd.Data, &dataCreatedAt)\<close>: \<^verbatim>\<open>vd.Data\<close> is a Go
  \<^verbatim>\<open>string\<close>, into which pgx refuses to scan a NULL.
\<close>

definition rows_Scan_data :: "env \<Rightarrow> verification_data_row \<Rightarrow> error + VerificationData" where
  "rows_Scan_data e r =
     (case Scan_err e (d_id r) of
        Some err \<Rightarrow> Inl err
      | None \<Rightarrow>
          (case d_data r of
             None \<Rightarrow> Inl (External ''cannot scan NULL into *string'')
           | Some s \<Rightarrow>
               Inr \<lparr>vd_DataType = d_data_type r, vd_Data = s,
                    vd_CreatedAt = RFC3339 e (d_created_at r)\<rparr>))"

text \<open>
  The rows that a loop \<^verbatim>\<open>for rows.Next()\<close> gets to see. When the result set breaks after
  \<open>n\<close> rows, \<^verbatim>\<open>Next\<close> answers false from then on; the error stays in
  \<^verbatim>\<open>rows.Err()\<close>, which the code never reads.
\<close>

definition rows_Next :: "env \<Rightarrow> sql_query \<Rightarrow> 'a list \<Rightarrow> 'a list" where
  "rows_Next e q rows = (case Rows_err e q of None \<Rightarrow> rows | Some (n, err) \<Rightarrow> take n rows)"

text \<open>
  The loop \<^verbatim>\<open>for rows.Next()\<close> over the data rows. A row that fails to scan is logged and
  the code says \<^verbatim>\<open>continue\<close>; but a failed \<^verbatim>\<open>rows.Scan\<close> of pgx closes the result
  set, so the next \<^verbatim>\<open>rows.Next()\<close> answers false and the loop ends there: the rows after
  the failed one are never read.
\<close>

fun scan_data_rows ::
  "env \<Rightarrow> verification_data_row list \<Rightarrow> VerificationData list \<Rightarrow> world
     \<Rightarrow> VerificationData list \<times> world" where
  "scan_data_rows e [] data w = (data, w)"
| "scan_data_rows e (r # rows) data w =
     (case rows_Scan_data e r of
        Inl err \<Rightarrow>
          (data, logger LError ''failed to scan verification data'' [(''error'', Error err)] w)
      | Inr vd \<Rightarrow> scan_data_rows e rows (data @ [vd]) w)"

text \<open>
  \<^verbatim>\<open>SELECT data_type, data, created_at FROM verification_data WHERE verification_id = $1
  ORDER BY created_at\<close>. SQL leaves the order of rows with equal keys open; the model keeps
  their table order.
\<close>

definition select_data :: "string \<Rightarrow> world \<Rightarrow> verification_data_row list" where
  "select_data vid w =
     sort_key d_created_at (filter (\<lambda>r. d_verification_id r = vid) (verification_data w))"

definition verificationRepository_GetByID ::
  "env \<Rightarrow> string \<Rightarrow> world \<Rightarrow> (error + Verification option) \<times> world" where
  "verificationRepository_GetByID e vid w =
     (let w0 = w\<lparr>queries := queries w @ [SelectVerificationByID vid]\<rparr>
      in case QueryRow_verification e vid w of
           Inl err \<Rightarrow>
             (if err = ErrNoRows then (Inr None, w0)
              else (Inl (Wrapf ''failed to get verification'' err),
                    logger LError ''failed to get verification''
                      [(''error'', Error err), (''id'', vid)] w0))
         | Inr r \<Rightarrow>
             (let verification = scan_verification e r;
                  w1 = w0\<lparr>queries := queries w0 @ [SelectDataByVerification vid]\<rparr>
              in case Query_err e (SelectDataByVerification vid) of
                   Some err \<Rightarrow>
                     (Inl (Wrapf ''failed to get verification data'' err),
                      logger LError ''failed to get verification data''
                        [(''error'', Error err), (''id'', vid)] w1)
                 | None \<Rightarrow>
                     (case scan_data_rows e
                             (rows_Next e (SelectDataByVerification vid) (select_data vid w)) [] w1 of
                        (data, w2) \<Rightarrow> (Inr (Some (verification\<lparr>Data := data\<rparr>)), w2))))"

text \<open>
  \<^verbatim>\<open>SELECT ... FROM verifications ORDER BY created_at DESC\<close>, followed by
  \<^verbatim>\<open>LIMIT %d\<close> and \<^verbatim>\<open>OFFSET %d\<close> for the pointers that are not nil. PostgreSQL
  rejects a negative \<^verbatim>\<open>LIMIT\<close> or \<^verbatim>\<open>OFFSET\<close> when it runs the query. Rows with
  equal keys come in the reverse of their table order; SQL leaves their order open.
\<close>

definition select_all ::
  "32 word option \<Rightarrow> 32 word option \<Rightarrow> world \<Rightarrow> error + verifications_row list" where
  "select_all limit offset w =
     (let ordered = rev (sort_key v_created_at (verifications w))
      in case offset of
           None \<Rightarrow>
             (case limit of
                None \<Rightarrow> Inr ordered
              | Some l \<Rightarrow>
                  if sint l < 0 then Inl (External ''LIMIT must not be negative'')
                  else Inr (take (nat (sint l)) ordered))
         | Some off \<Rightarrow>
             if sint off < 0 then Inl (External ''OFFSET must not be negative'')
             else
               (case limit of
                  None \<Rightarrow> Inr (drop (nat (sint off)) ordered)
                | Some l \<Rightarrow>
                    if sint l < 0 then Inl (External ''LIMIT must not be negative'')
                    else Inr (take (nat (sint l)) (drop (nat (sint off)) ordered))))"

text \<open>The same loop over the rows of \<^verbatim>\<open>verifications\<close>: it ends at the first failed scan.\<close>

fun scan_verification_rows ::
  "env \<Rightarrow> verifications_row list \<Rightarrow> Verification list \<Rightarrow> world \<Rightarrow> Verification list \<times> world" where
  "scan_verification_rows e [] vs w = (vs, w)"
| "scan_verification_rows e (r # rows) vs w =
     (case Scan_err e (v_id r) of
        Some err \<Rightarrow>
          (vs, logger LError ''failed to scan verification'' [(''error'', Error err)] w)
      | None \<Rightarrow> scan_verification_rows e rows (vs @ [scan_verification e r]) w)"

text \<open>
  \<^verbatim>\<open>GetAll\<close>. The error that \<^verbatim>\<open>Query\<close> returns is wrapped and returned. An error of
  the running query (a negative bound) or one that breaks the result set reaches the code
  only as \<^verbatim>\<open>rows.Next()\<close> answering false: the rows read until then are returned with a
  nil error.
\<close>

definition verificationRepository_GetAll ::
  "env \<Rightarrow> 32 word option \<Rightarrow> 32 word option \<Rightarrow> world \<Rightarrow> (error + Verification list) \<times> world" where
  "verificationRepository_GetAll e limit offset w =
     (let q = SelectAllVerifications limit offset;
          w0 = w\<lparr>queries := queries w @ [q]\<rparr>
      in case Query_err e q of
           Some err \<Rightarrow>
             (Inl (Wrapf ''failed to get all verifications'' err),
              logger LError ''failed to get all verifications'' [(''error'', Error err)] w0)
         | None \<Rightarrow>
             (case scan_verification_rows e
                     (rows_Next e q
                        (case select_all limit offset w of Inl err \<Rightarrow> [] | Inr rows \<Rightarrow> rows))
                     [] w0 of
                (vs, w1) \<Rightarrow> (Inr vs, w1)))"

section \<open>Service\<close>

text \<open>
  The service holds its collaborators behind the interfaces
  \<^verbatim>\<open>repository.VerificationRepository\<close> and \<^verbatim>\<open>messaging.NATSClient\<close>.
\<close>

record VerificationRepository =
  GetByID :: "string \<Rightarrow> world \<Rightarrow> (error + Verification option) \<times> world"
  GetAll :: "32 word option \<Rightarrow> 32 word option \<Rightarrow> world \<Rightarrow> (error + Verification list) \<times> world"

record NATSClient =
  Publish :: "Verification \<Rightarrow> world \<Rightarrow> error option \<times> world"

record verificationService =
  repo :: VerificationRepository
  nats :: NATSClient

definition NewVerificationRepository :: "env \<Rightarrow> VerificationRepository" where
  "NewVerificationRepository e =
     \<lparr>GetByID = verificationRepository_GetByID e, GetAll = verificationRepository_GetAll e\<rparr>"

definition NewNATSClient :: "env \<Rightarrow> NATSClient" where
  "NewNATSClient e = \<lparr>Publish = PublishVerificationRequest e\<rparr>"

definition NewVerificationService :: "VerificationRepository \<Rightarrow> NATSClient \<Rightarrow> verificationService" where
  "NewVerificationService r n = \<lparr>repo = r, nats = n\<rparr>"

text \<open>The wiring of \<^verbatim>\<open>main\<close>.\<close>

definition gateway :: "env \<Rightarrow> verificationService" where
  "gateway e = NewVerificationService (NewVerificationRepository e) (NewNATSClient e)"

text \<open>
  \<open>verificationID\<close> is the value \<^verbatim>\<open>uuid.New().String()\<close> produced in this call.
\<close>

definition CreateVerification ::
  "verificationService \<Rightarrow> string \<Rightarrow> string \<Rightarrow> VerificationDataType list \<Rightarrow> string \<Rightarrow> world
     \<Rightarrow> (error + Verification) \<times> world" where
  "CreateVerification s verificationID inn requestedTypes authorEmail w =
     (if inn = '''' then (Inl (Errorf ''inn cannot be empty''), w)
      else if length requestedTypes = 0
        then (Inl (Errorf ''at least one data type must be requested''), w)
      else if length inn \<noteq> 10 \<and> length inn \<noteq> 12
        then (Inl (Errorf (''inn must be 10 or 12 digits, got '' @ Sprintf_d (int (length inn)))), w)
      else
        (let verification = \<lparr>ID = verificationID, Inn = inn,
                              Status = VerificationStatusInProcess, AuthorEmail = authorEmail,
                              CompanyID = None, RequestedDataTypes = requestedTypes, Data = [],
                              CreatedAt = '''', UpdatedAt = ''''\<rparr>
         in case Publish (nats s) verification w of
              (Some err, w1) \<Rightarrow>
                (Inl (Wrapf ''failed to publish verification request'' err),
                 logger LError ''failed to publish verification request''
                   [(''error'', Error err), (''verification_id'', verificationID)] w1)
            | (None, w1) \<Rightarrow>
                (Inr verification,
                 logger LInfo ''verification request published''
                   [(''verification_id'', verificationID), (''inn'', inn)] w1)))"

definition GetVerification ::
  "verificationService \<Rightarrow> string \<Rightarrow> world \<Rightarrow> (error + Verification) \<times> world" where
  "GetVerification s vid w =
     (if vid = '''' then (Inl (Errorf ''verification id cannot be empty''), w)
      else case GetByID (repo s) vid w of
             (Inl err, w1) \<Rightarrow>
               (Inl (Wrapf ''failed to get verification'' err),
                logger LError ''failed to get verification from repository''
                  [(''error'', Error err), (''id'', vid)] w1)
           | (Inr None, w1) \<Rightarrow> (Inl (Errorf (''verification not found: '' @ vid)), w1)
           | (Inr (Some verification), w1) \<Rightarrow> (Inr verification, w1))"

definition GetAllVerifications ::
  "verificationService \<Rightarrow> 32 word option \<Rightarrow> 32 word option \<Rightarrow> world
     \<Rightarrow> (error + Verification list) \<times> world" where
  "GetAllVerifications s limit offset w =
     (if limit \<noteq> None \<and> sint (the limit) < 0
        then (Inl (Errorf (''limit must be non-negative, got '' @ Sprintf_d (sint (the limit)))), w)
      else if offset \<noteq> None \<and> sint (the offset) < 0
        then (Inl (Errorf (''offset must be non-negative, got '' @ Sprintf_d (sint (the offset)))), w)
      else GetAll (repo s) limit offset w)"

section \<open>Migration 004: the cache table and the backfill function\<close>

text \<open>
  \<^verbatim>\<open>INSERT INTO verification_data_cache (data_hash, data) VALUES (computed_hash, rec.data)
  ON CONFLICT (data_hash) DO NOTHING\<close>. The columns \<^verbatim>\<open>id\<close> and \<^verbatim>\<open>created_at\<close> take
  their defaults \<^verbatim>\<open>gen_random_uuid()\<close> and \<^verbatim>\<open>NOW()\<close>, passed in here.
\<close>

definition insert_cache_on_conflict_do_nothing ::
  "string \<Rightarrow> time \<Rightarrow> string \<Rightarrow> string \<Rightarrow> verification_data_cache_row list
     \<Rightarrow> verification_data_cache_row list" where
  "insert_cache_on_conflict_do_nothing new_id now computed_hash data tbl =
     (if \<exists>r \<in> set tbl. c_data_hash r = computed_hash then tbl
      else tbl @ [\<lparr>c_id = new_id, c_data_hash = computed_hash, c_data = data,
                   c_created_at = now\<rparr>])"

text \<open>
  One pass of the loop body for the record \<open>(rec_id, rec_data)\<close>. \<open>sha256_hex\<close> stands for
  \<^verbatim>\<open>encode(digest(text, 'sha256'), 'hex')\<close> of pgcrypto. The column \<^verbatim>\<open>data\<close> is
  \<^verbatim>\<open>JSONB\<close>; a payload is held here as the text \<^verbatim>\<open>rec.data::text\<close> that is hashed.
\<close>

definition migrate_step ::
  "(string \<Rightarrow> string) \<Rightarrow> string \<Rightarrow> time \<Rightarrow> string \<times> string \<Rightarrow> world \<Rightarrow> world" where
  "migrate_step sha256_hex new_id now rec w =
     (let computed_hash = sha256_hex (snd rec);
          w1 = w\<lparr>verification_data_cache :=
                   insert_cache_on_conflict_do_nothing new_id now computed_hash (snd rec)
                     (verification_data_cache w)\<rparr>
      in w1\<lparr>verification_data :=
              map (\<lambda>r. if d_id r = fst rec then r\<lparr>d_data_hash := Some computed_hash\<rparr> else r)
                (verification_data w1)\<rparr>)"

fun migrate_loop ::
  "(string \<Rightarrow> string) \<Rightarrow> (nat \<Rightarrow> string) \<Rightarrow> time \<Rightarrow> (string \<times> string) list \<Rightarrow> nat \<Rightarrow> world
     \<Rightarrow> nat \<times> world" where
  "migrate_loop sha256_hex gen_random_uuid now [] processed_count w = (processed_count, w)"
| "migrate_loop sha256_hex gen_random_uuid now (rec # recs) processed_count w =
     migrate_loop sha256_hex gen_random_uuid now recs (processed_count + 1)
       (migrate_step sha256_hex (gen_random_uuid processed_count) now rec w)"

text \<open>
  \<^verbatim>\<open>FOR rec IN SELECT id, data FROM verification_data WHERE data_hash IS NULL AND data IS
  NOT NULL LOOP\<close>: the records are those of the table when the loop starts.
\<close>

definition migrate_existing_verification_data ::
  "(string \<Rightarrow> string) \<Rightarrow> (nat \<Rightarrow> string) \<Rightarrow> time \<Rightarrow> world \<Rightarrow> nat \<times> world" where
  "migrate_existing_verification_data sha256_hex gen_random_uuid now w =
     migrate_loop sha256_hex gen_random_uuid now
       (map (\<lambda>r. (d_id r, the (d_data r)))
          (filter (\<lambda>r. d_data_hash r = None \<and> d_data r \<noteq> None) (verification_data w)))
       0 w"

section \<open>The error taxonomy of the specification\<close>

text \<open>
  The code builds every error with \<^verbatim>\<open>fmt.Errorf\<close>; the classes below group the
  messages as the specification's taxonomy does. \<open>InvalidArgument\<close>: the argument checks of
  the service. \<open>NotFound\<close>: an unknown verification ID, an unknown cache hash.
\<close>

definition has_prefix :: "string \<Rightarrow> string \<Rightarrow> bool" where
  "has_prefix p m = (take (length p) m = p)"

definition InvalidArgument :: "error \<Rightarrow> bool" where
  "InvalidArgument err =
     (case err of
        Errorf m \<Rightarrow>
          m = ''inn cannot be empty'' \<or> m = ''at least one data type must be requested''
          \<or> m = ''verification id cannot be empty''
          \<or> has_prefix ''inn must be 10 or 12 digits, got '' m
          \<or> has_prefix ''limit must be non-negative, got '' m
          \<or> has_prefix ''offset must be non-negative, got '' m
      | _ \<Rightarrow> False)"

definition NotFound :: "error \<Rightarrow> bool" where
  "NotFound err =
     (case err of
        Errorf m \<Rightarrow> has_prefix ''verification not found: '' m
      | Wrapf m cause \<Rightarrow> has_prefix ''data not found in cache for hash '' m
      | _ \<Rightarrow> False)"

section \<open>Observations used in the statements\<close>

text \<open>
  What the scan of one \<^verbatim>\<open>verification_data\<close> row gives (\<open>scanned_data\<close>); the records
  that the loop collects from the rows it gets to see, which are those before the first row
  that fails to scan (\<open>read_data\<close>); and the log line of that first failure
  (\<open>read_data_log\<close>).
\<close>

definition scanned_data :: "env \<Rightarrow> verification_data_row \<Rightarrow> VerificationData option" where
  "scanned_data e r = (case rows_Scan_data e r of Inl err \<Rightarrow> None | Inr vd \<Rightarrow> Some vd)"

definition read_data :: "env \<Rightarrow> verification_data_row list \<Rightarrow> VerificationData list" where
  "read_data e rows =
     List.map_filter (scanned_data e) (takeWhile (\<lambda>r. scanned_data e r \<noteq> None) rows)"

definition read_data_log :: "env \<Rightarrow> verification_data_row list \<Rightarrow> log_entry list" where
  "read_data_log e rows =
     (case dropWhile (\<lambda>r. scanned_data e r \<noteq> None) rows of
        [] \<Rightarrow> []
      | r # _ \<Rightarrow>
          (case rows_Scan_data e r of
             Inl err \<Rightarrow> [(LError, ''failed to scan verification data'', [(''error'', Error err)])]
           | Inr vd \<Rightarrow> []))"

text \<open>
  The records that the backfill loop of migration 004 selects, and the payloads it stores.
\<close>

definition awaits_backfill :: "verification_data_row \<Rightarrow> bool" where
  "awaits_backfill r = (d_data_hash r = None \<and> d_data r \<noteq> None)"

definition backfill_payloads :: "world \<Rightarrow> string set" where
  "backfill_payloads w =
     set (map (\<lambda>r. the (d_data r)) (filter awaits_backfill (verification_data w)))"

section \<open>Fixtures\<close>

text \<open>
  Concrete collaborators and a concrete store, for evaluating the model.
  \<^item> \<open>env_up\<close>: every collaborator answers; a time is rendered as its number; the decoder
    accepts one payload and rejects the rest, as \<^verbatim>\<open>encoding/json\<close> rejects
    \<^verbatim>\<open>invalid json\<close>.
  \<^item> \<open>env_bus_down\<close>: the connection refuses to publish, as in the test
    \<^verbatim>\<open>nats_publish_error\<close>.
  \<^item> \<open>env_scan_fails\<close>: the scan of the row \<open>id_d2\<close> fails.
  \<^item> \<open>env_rows_break\<close>: every result set breaks after its first row.
  \<^item> \<open>env_data_column_dropped\<close>: PostgreSQL rejects the query on
    \<^verbatim>\<open>verification_data\<close>, whose column \<^verbatim>\<open>data\<close> migration 005 drops.
  \<^item> \<open>env_db_down\<close>: the pool fails.
\<close>

text \<open>Identifiers of the fixtures: UUIDs, as the key columns require.\<close>

definition id_v1 :: string where
  "id_v1 = ''00000000-0000-4000-8000-000000000001''"

definition id_v2 :: string where
  "id_v2 = ''00000000-0000-4000-8000-000000000002''"

definition id_none :: string where
  "id_none = ''00000000-0000-4000-8000-0000000000ff''"

definition id_new1 :: string where
  "id_new1 = ''00000000-0000-4000-8000-0000000000a1''"

definition id_new2 :: string where
  "id_new2 = ''00000000-0000-4000-8000-0000000000a2''"

definition id_d1 :: string where
  "id_d1 = ''00000000-0000-4000-8000-0000000000d1''"

definition id_d2 :: string where
  "id_d2 = ''00000000-0000-4000-8000-0000000000d2''"

definition id_d3 :: string where
  "id_d3 = ''00000000-0000-4000-8000-0000000000d3''"

definition id_c1 :: string where
  "id_c1 = ''00000000-0000-4000-8000-0000000000c1''"

definition id_c2 :: string where
  "id_c2 = ''00000000-0000-4000-8000-0000000000c2''"

definition id_c3 :: string where
  "id_c3 = ''00000000-0000-4000-8000-0000000000c3''"

definition completed_payload :: string where
  "completed_payload =
     ''{\"verification_id\":\"00000000-0000-4000-8000-000000000001\",\"status\":\"COMPLETED\"}''"

text \<open>A stand-in for the digest in the evaluations: it is injective, as SHA-256 is taken to be.\<close>

definition sha0 :: "string \<Rightarrow> string" where
  "sha0 text = ''sha256:'' @ text"

text \<open>
  The canonical text of a UUID: hexadecimal digits in groups of 8, 4, 4, 4 and 12. It stands
  for what PostgreSQL reads as a \<^verbatim>\<open>uuid\<close> (which takes some further spellings, none of
  them used below).
\<close>

definition uuid_shape :: "char \<Rightarrow> char" where
  "uuid_shape c =
     (if c = CHR ''-'' then CHR ''-''
      else if c \<in> set ''0123456789abcdefABCDEF'' then CHR ''x'' else CHR ''?'')"

definition canonical_uuid :: "string \<Rightarrow> bool" where
  "canonical_uuid s = (map uuid_shape s = ''xxxxxxxx-xxxx-xxxx-xxxx-xxxxxxxxxxxx'')"

definition env_up :: env where
  "env_up =
     \<lparr>json_Marshal = (\<lambda>m. Inr (cvm_VerificationID m @ '';'' @ cvm_INN m)),
      json_Unmarshal =
        (\<lambda>d. if d = completed_payload
              then Inr \<lparr>vcm_VerificationID = id_v1, vcm_Status = ''COMPLETED''\<rparr>
              else Inl (External ''invalid character'')),
      conn_Publish = (\<lambda>subj d. None),
      conn_Subscribe = (\<lambda>subj. None),
      Query_err = (\<lambda>q. None),
      Rows_err = (\<lambda>q. None),
      Scan_err = (\<lambda>k. None),
      uuid_in =
        (\<lambda>s. if canonical_uuid s then None
             else Some (External (''invalid input syntax for type uuid: '' @ s))),
      RFC3339 = (\<lambda>t. Sprintf_d t)\<rparr>"

definition env_bus_down :: env where
  "env_bus_down = env_up\<lparr>conn_Publish := (\<lambda>subj d. Some (External ''nats connection failed''))\<rparr>"

definition env_scan_fails :: env where
  "env_scan_fails =
     env_up\<lparr>Scan_err := (\<lambda>k. if k = id_d2 then Some (External ''scan failed'') else None)\<rparr>"

definition env_rows_break :: env where
  "env_rows_break = env_up\<lparr>Rows_err := (\<lambda>q. Some (1, External ''unexpected EOF''))\<rparr>"

definition env_data_column_dropped :: env where
  "env_data_column_dropped =
     env_up\<lparr>Query_err :=
       (\<lambda>q. case q of
              SelectDataByVerification vid \<Rightarrow> Some (External ''column \"data\" does not exist'')
            | _ \<Rightarrow> None)\<rparr>"


definition world0 :: world where
  "world0 =
     \<lparr>verifications =
        [\<lparr>v_id = id_v1, v_inn = ''1234567890'', v_status = ''IN_PROCESS'',
          v_author_email = ''test@example.com'', v_company_id = None,
          v_requested_data_types = [''BASIC_INFORMATION''], v_created_at = 100,
          v_updated_at = 100\<rparr>,
         \<lparr>v_id = id_v2, v_inn = ''123456789012'', v_status = ''COMPLETED'',
          v_author_email = ''test@example.com'', v_company_id = None,
          v_requested_data_types = [''ACTIVITIES''], v_created_at = 200,
          v_updated_at = 250\<rparr>],
      verification_data =
        [\<lparr>d_id = id_d2, d_verification_id = id_v1, d_data_type = ''ACTIVITIES'',
          d_data = Some ''{\"activities\": []}'', d_data_hash = Some ''dangling'',
          d_created_at = 120\<rparr>,
         \<lparr>d_id = id_d1, d_verification_id = id_v1, d_data_type = ''BASIC_INFORMATION'',
          d_data = Some ''{\"name\": \"Acme\"}'', d_data_hash = None, d_created_at = 110\<rparr>,
         \<lparr>d_id = id_d3, d_verification_id = id_v1, d_data_type = ''AFFILIATED_COMPANIES'',
          d_data = Some ''{\"companies\": []}'', d_data_hash = Some ''abc123'',
          d_created_at = 130\<rparr>],
      verification_data_cache =
        [\<lparr>c_id = id_c1, c_data_hash = ''abc123'', c_data = ''{\"test\": \"data\"}'',
          c_created_at = 90\<rparr>],
      queries = [], published = [], subscriptions = [], logs = []\<rparr>"

text \<open>
  A store before the backfill: two records with the same payload and one with a payload that
  the cache holds already await it; a fourth record has its hash. The cache holds its entry
  under the digest of the payload.
\<close>

definition world1 :: world where
  "world1 =
     world0
       \<lparr>verification_data :=
          [\<lparr>d_id = id_d1, d_verification_id = id_v1, d_data_type = ''BASIC_INFORMATION'',
            d_data = Some ''{\"a\": 1}'', d_data_hash = None, d_created_at = 110\<rparr>,
           \<lparr>d_id = id_d2, d_verification_id = id_v2, d_data_type = ''BASIC_INFORMATION'',
            d_data = Some ''{\"a\": 1}'', d_data_hash = None, d_created_at = 120\<rparr>,
           \<lparr>d_id = id_d3, d_verification_id = id_v1, d_data_type = ''ACTIVITIES'',
            d_data = Some ''{\"test\": \"data\"}'', d_data_hash = None, d_created_at = 130\<rparr>,
           \<lparr>d_id = id_c3, d_verification_id = id_v2, d_data_type = ''ACTIVITIES'',
            d_data = Some ''{\"b\": 2}'', d_data_hash = Some ''0f'', d_created_at = 140\<rparr>],
        verification_data_cache :=
          [\<lparr>c_id = id_c1, c_data_hash = sha0 ''{\"test\": \"data\"}'',
            c_data = ''{\"test\": \"data\"}'', c_created_at = 90\<rparr>]\<rparr>"

text \<open>The generator of the fixtures numbers the UUIDs it hands out.\<close>

definition uuid_of_nat :: "nat \<Rightarrow> string" where
  "uuid_of_nat n =
     ''00000000-0000-4000-9000-'' @ replicate (12 - length (itoa n)) (CHR ''0'') @ itoa n"

section \<open>Basic facts\<close>

lemmas fixture_ids =
  id_v1_def id_v2_def id_none_def id_new1_def id_new2_def id_d1_def id_d2_def id_d3_def
  id_c1_def id_c2_def id_c3_def

lemma InvalidArgument_intros:
  "InvalidArgument (Errorf ''inn cannot be empty'')"
  "InvalidArgument (Errorf ''at least one data type must be requested'')"
  "InvalidArgument (Errorf ''verification id cannot be empty'')"
  "InvalidArgument (Errorf (''inn must be 10 or 12 digits, got '' @ x))"
  "InvalidArgument (Errorf (''limit must be non-negative, got '' @ x))"
  "InvalidArgument (Errorf (''offset must be non-negative, got '' @ x))"
  by (simp_all add: InvalidArgument_def has_prefix_def)

lemma InvalidArgument_Wrapf [simp]: "\<not> InvalidArgument (Wrapf m err)"
  by (simp add: InvalidArgument_def)

lemma NotFound_intros:
  "NotFound (Errorf (''verification not found: '' @ x))"
  "NotFound (Wrapf (''data not found in cache for hash '' @ x) err)"
  by (simp_all add: NotFound_def has_prefix_def)

lemma logger_tables [simp]:
  "verifications (logger l m kvs w) = verifications w"
  "verification_data (logger l m kvs w) = verification_data w"
  "verification_data_cache (logger l m kvs w) = verification_data_cache w"
  "queries (logger l m kvs w) = queries w"
  "published (logger l m kvs w) = published w"
  "subscriptions (logger l m kvs w) = subscriptions w"
  by (simp_all add: logger_def)

lemma gateway_simps [simp]:
  "Publish (nats (gateway e)) = PublishVerificationRequest e"
  "GetByID (repo (gateway e)) = verificationRepository_GetByID e"
  "GetAll (repo (gateway e)) = verificationRepository_GetAll e"
  by (simp_all add: gateway_def NewVerificationService_def NewVerificationRepository_def
      NewNATSClient_def)

subsection \<open>CreateVerification, branch by branch\<close>

lemma CreateVerification_inn_empty:
  "CreateVerification s u [] ts a w = (Inl (Errorf ''inn cannot be empty''), w)"
  by (simp add: CreateVerification_def)

lemma CreateVerification_no_types:
  "inn \<noteq> [] \<Longrightarrow>
   CreateVerification s u inn [] a w = (Inl (Errorf ''at least one data type must be requested''), w)"
  by (simp add: CreateVerification_def)

lemma CreateVerification_bad_length:
  "inn \<noteq> [] \<Longrightarrow> ts \<noteq> [] \<Longrightarrow> length inn \<noteq> 10 \<Longrightarrow> length inn \<noteq> 12 \<Longrightarrow>
   CreateVerification s u inn ts a w =
     (Inl (Errorf (''inn must be 10 or 12 digits, got '' @ Sprintf_d (int (length inn)))), w)"
  by (simp add: CreateVerification_def)

lemma CreateVerification_valid:
  "ts \<noteq> [] \<Longrightarrow> length inn = 10 \<or> length inn = 12 \<Longrightarrow>
   CreateVerification s u inn ts a w =
     (let verification = \<lparr>ID = u, Inn = inn, Status = VerificationStatusInProcess,
                           AuthorEmail = a, CompanyID = None, RequestedDataTypes = ts, Data = [],
                           CreatedAt = '''', UpdatedAt = ''''\<rparr>
      in case Publish (nats s) verification w of
           (Some err, w1) \<Rightarrow>
             (Inl (Wrapf ''failed to publish verification request'' err),
              logger LError ''failed to publish verification request''
                [(''error'', Error err), (''verification_id'', u)] w1)
         | (None, w1) \<Rightarrow>
             (Inr verification,
              logger LInfo ''verification request published''
                [(''verification_id'', u), (''inn'', inn)] w1))"
  by (auto simp: CreateVerification_def)

lemma CreateVerification_valid_not_InvalidArgument:
  assumes "ts \<noteq> []" "length inn = 10 \<or> length inn = 12"
    and "fst (CreateVerification s u inn ts a w) = Inl err"
  shows "\<not> InvalidArgument err"
  using assms(3) unfolding CreateVerification_valid [OF assms(1,2)]
  by (auto simp: Let_def split: prod.splits option.splits)

lemma CreateVerification_InvalidArgument_iff:
  "(\<exists>err. fst (CreateVerification s u inn ts a w) = Inl err \<and> InvalidArgument err)
     \<longleftrightarrow> (inn = '''' \<or> (length inn \<noteq> 10 \<and> length inn \<noteq> 12) \<or> ts = [])"
proof (cases "inn = []")
  case True
  then show ?thesis
    by (simp add: CreateVerification_inn_empty InvalidArgument_intros)
next
  case inn: False
  show ?thesis
  proof (cases "ts = []")
    case True
    with inn show ?thesis
      by (simp add: CreateVerification_no_types InvalidArgument_intros)
  next
    case ts: False
    show ?thesis
    proof (cases "length inn = 10 \<or> length inn = 12")
      case True
      with ts inn CreateVerification_valid_not_InvalidArgument [OF ts True] show ?thesis
        by blast
    next
      case False
      with inn ts show ?thesis
        by (simp add: CreateVerification_bad_length InvalidArgument_def has_prefix_def)
    qed
  qed
qed
subsection \<open>Publishing touches the bus and the log only\<close>

lemma Publish_tables [simp]:
  "verifications (snd (PublishVerificationRequest e v w)) = verifications w"
  "verification_data (snd (PublishVerificationRequest e v w)) = verification_data w"
  "verification_data_cache (snd (PublishVerificationRequest e v w)) = verification_data_cache w"
  "queries (snd (PublishVerificationRequest e v w)) = queries w"
  by (simp_all add: PublishVerificationRequest_def Let_def split: sum.splits option.splits)

lemma Publish_failed_published:
  "fst (PublishVerificationRequest e v w) \<noteq> None \<Longrightarrow>
   published (snd (PublishVerificationRequest e v w)) = published w"
  by (simp add: PublishVerificationRequest_def Let_def split: sum.splits option.splits)

lemma Publish_fst_world: "fst (PublishVerificationRequest e v w) = fst (PublishVerificationRequest e v w')"
  by (simp add: PublishVerificationRequest_def Let_def split: sum.splits option.splits)

lemma CreateVerification_gateway_valid:
  assumes "ts \<noteq> []" "length inn = 10 \<or> length inn = 12"
  shows "fst (CreateVerification (gateway e) u inn ts a w) =
     (case fst (PublishVerificationRequest e
                  \<lparr>ID = u, Inn = inn, Status = VerificationStatusInProcess, AuthorEmail = a,
                   CompanyID = None, RequestedDataTypes = ts, Data = [], CreatedAt = '''',
                   UpdatedAt = ''''\<rparr> w) of
        Some err \<Rightarrow> Inl (Wrapf ''failed to publish verification request'' err)
      | None \<Rightarrow>
          Inr \<lparr>ID = u, Inn = inn, Status = VerificationStatusInProcess, AuthorEmail = a,
               CompanyID = None, RequestedDataTypes = ts, Data = [], CreatedAt = '''',
               UpdatedAt = ''''\<rparr>)"
  unfolding CreateVerification_valid [OF assms]
  by (simp add: Let_def split: prod.splits option.splits)

text \<open>
  C2, as the code has it. The checks run in this order: the identifier is empty; no data
  type is requested; the length of the identifier is neither 10 nor 12. The first that
  applies gives the error, and the state is returned untouched; so the error is an
  InvalidArgument error exactly when one of the three applies, and it cites the length when
  the identifier is not empty and a data type is requested. An input that passes the checks
  is published: the call returns the Verification with the ID generated in the call and
  status \<open>IN_PROCESS\<close> when the publish succeeds, and the wrapped publish error, which is no
  InvalidArgument error, when it fails. The generated ID is compared with nothing.
\<close>

theorem CreateVerification_validation:
  "((\<exists>err. fst (CreateVerification (gateway e) u inn ts a w) = Inl err \<and> InvalidArgument err)
      \<longleftrightarrow> (inn = '''' \<or> (length inn \<noteq> 10 \<and> length inn \<noteq> 12) \<or> ts = []))
   \<and> (inn = '''' \<longrightarrow>
        CreateVerification (gateway e) u inn ts a w = (Inl (Errorf ''inn cannot be empty''), w))
   \<and> (inn \<noteq> '''' \<and> ts = [] \<longrightarrow>
        CreateVerification (gateway e) u inn ts a w =
          (Inl (Errorf ''at least one data type must be requested''), w))
   \<and> (inn \<noteq> '''' \<and> ts \<noteq> [] \<and> length inn \<noteq> 10 \<and> length inn \<noteq> 12 \<longrightarrow>
        CreateVerification (gateway e) u inn ts a w =
          (Inl (Errorf (''inn must be 10 or 12 digits, got '' @ itoa (length inn))), w))
   \<and> (ts \<noteq> [] \<and> (length inn = 10 \<or> length inn = 12) \<longrightarrow>
        fst (CreateVerification (gateway e) u inn ts a w) =
          (case fst (PublishVerificationRequest e
                       \<lparr>ID = u, Inn = inn, Status = ''IN_PROCESS'', AuthorEmail = a,
                        CompanyID = None, RequestedDataTypes = ts, Data = [], CreatedAt = '''',
                        UpdatedAt = ''''\<rparr> w) of
             None \<Rightarrow>
               Inr \<lparr>ID = u, Inn = inn, Status = ''IN_PROCESS'', AuthorEmail = a,
                    CompanyID = None, RequestedDataTypes = ts, Data = [], CreatedAt = '''',
                    UpdatedAt = ''''\<rparr>
           | Some err \<Rightarrow> Inl (Wrapf ''failed to publish verification request'' err))
        \<and> (isl (fst (CreateVerification (gateway e) u inn ts a w)) \<longleftrightarrow>
             fst (PublishVerificationRequest e
                    \<lparr>ID = u, Inn = inn, Status = ''IN_PROCESS'', AuthorEmail = a,
                     CompanyID = None, RequestedDataTypes = ts, Data = [], CreatedAt = '''',
                     UpdatedAt = ''''\<rparr> w) \<noteq> None))"
proof (intro conjI impI)
  show "(\<exists>err. fst (CreateVerification (gateway e) u inn ts a w) = Inl err \<and> InvalidArgument err)
      \<longleftrightarrow> (inn = '''' \<or> (length inn \<noteq> 10 \<and> length inn \<noteq> 12) \<or> ts = [])"
    by (rule CreateVerification_InvalidArgument_iff)
next
  assume "inn = ''''"
  then show "CreateVerification (gateway e) u inn ts a w = (Inl (Errorf ''inn cannot be empty''), w)"
    by (simp add: CreateVerification_inn_empty)
next
  assume "inn \<noteq> '''' \<and> ts = []"
  then show "CreateVerification (gateway e) u inn ts a w =
          (Inl (Errorf ''at least one data type must be requested''), w)"
    by (simp add: CreateVerification_no_types)
next
  assume "inn \<noteq> '''' \<and> ts \<noteq> [] \<and> length inn \<noteq> 10 \<and> length inn \<noteq> 12"
  then show "CreateVerification (gateway e) u inn ts a w =
          (Inl (Errorf (''inn must be 10 or 12 digits, got '' @ itoa (length inn))), w)"
    by (simp add: CreateVerification_bad_length Sprintf_d_def)
next
  assume h: "ts \<noteq> [] \<and> (length inn = 10 \<or> length inn = 12)"
  then have "ts \<noteq> []" "length inn = 10 \<or> length inn = 12" by auto
  from CreateVerification_gateway_valid [OF this, of e u a w]
  show c: "fst (CreateVerification (gateway e) u inn ts a w) =
          (case fst (PublishVerificationRequest e
                       \<lparr>ID = u, Inn = inn, Status = ''IN_PROCESS'', AuthorEmail = a,
                        CompanyID = None, RequestedDataTypes = ts, Data = [], CreatedAt = '''',
                        UpdatedAt = ''''\<rparr> w) of
             None \<Rightarrow>
               Inr \<lparr>ID = u, Inn = inn, Status = ''IN_PROCESS'', AuthorEmail = a,
                    CompanyID = None, RequestedDataTypes = ts, Data = [], CreatedAt = '''',
                    UpdatedAt = ''''\<rparr>
           | Some err \<Rightarrow> Inl (Wrapf ''failed to publish verification request'' err))"
    unfolding VerificationStatusInProcess_def by (simp split: option.splits)
  show "isl (fst (CreateVerification (gateway e) u inn ts a w)) \<longleftrightarrow>
             fst (PublishVerificationRequest e
                    \<lparr>ID = u, Inn = inn, Status = ''IN_PROCESS'', AuthorEmail = a,
                     CompanyID = None, RequestedDataTypes = ts, Data = [], CreatedAt = '''',
                     UpdatedAt = ''''\<rparr> w) \<noteq> None"
    unfolding c by (simp split: option.splits)
qed

lemma env_up_publish:
  "fst (PublishVerificationRequest env_up v w) = None"
  by (simp add: PublishVerificationRequest_def env_up_def Let_def)

theorem CreateVerification_validation_witness:
  "CreateVerification (gateway env_up) id_new1 '''' [''BASIC_INFORMATION'']
          ''test@example.com'' world0 = (Inl (Errorf ''inn cannot be empty''), world0)
   \<and> CreateVerification (gateway env_up) id_new1 ''1234567890'' []
          ''test@example.com'' world0 =
       (Inl (Errorf ''at least one data type must be requested''), world0)
   \<and> CreateVerification (gateway env_up) id_new1 ''123'' [''BASIC_INFORMATION'']
          ''test@example.com'' world0 =
       (Inl (Errorf ''inn must be 10 or 12 digits, got 3''), world0)
   \<and> InvalidArgument (Errorf ''inn must be 10 or 12 digits, got 3'')
   \<and> fst (CreateVerification (gateway env_up) id_new1 ''123456789012'' [''BASIC_INFORMATION'']
          ''test@example.com'' world0) =
       Inr \<lparr>ID = id_new1, Inn = ''123456789012'', Status = ''IN_PROCESS'',
            AuthorEmail = ''test@example.com'', CompanyID = None,
            RequestedDataTypes = [''BASIC_INFORMATION''], Data = [], CreatedAt = '''',
            UpdatedAt = ''''\<rparr>
   \<and> id_v1 \<in> v_id ` set (verifications world0)
   \<and> ID (projr (fst (CreateVerification (gateway env_up) id_v1 ''123456789012''
          [''BASIC_INFORMATION''] ''test@example.com'' world0))) = id_v1"
proof -
  note t0 = CreateVerification_validation [of env_up "id_new1" "''''" "[''BASIC_INFORMATION'']"
      "''test@example.com''" world0]
  note t1 = CreateVerification_validation [of env_up "id_new1" "''1234567890''" "[]"
      "''test@example.com''" world0]
  note t2 = CreateVerification_validation [of env_up "id_new1" "''123''" "[''BASIC_INFORMATION'']"
      "''test@example.com''" world0]
  note t3 = CreateVerification_validation [of env_up "id_new1" "''123456789012''"
      "[''BASIC_INFORMATION'']" "''test@example.com''" world0]
  note t4 = CreateVerification_validation [of env_up "id_v1" "''123456789012''"
      "[''BASIC_INFORMATION'']" "''test@example.com''" world0]
  from t0 [THEN conjunct2, THEN conjunct1]
  have 0: "CreateVerification (gateway env_up) id_new1 '''' [''BASIC_INFORMATION'']
          ''test@example.com'' world0 = (Inl (Errorf ''inn cannot be empty''), world0)"
    by simp
  from t1 [THEN conjunct2, THEN conjunct2, THEN conjunct1]
  have 1: "CreateVerification (gateway env_up) id_new1 ''1234567890'' []
          ''test@example.com'' world0 =
       (Inl (Errorf ''at least one data type must be requested''), world0)"
    by simp
  from t2 [THEN conjunct2, THEN conjunct2, THEN conjunct2, THEN conjunct1]
  have 2: "CreateVerification (gateway env_up) id_new1 ''123'' [''BASIC_INFORMATION'']
          ''test@example.com'' world0 =
       (Inl (Errorf ''inn must be 10 or 12 digits, got 3''), world0)"
    by (simp add: itoa.simps)
  have i: "InvalidArgument (Errorf ''inn must be 10 or 12 digits, got 3'')"
    by (simp add: InvalidArgument_def has_prefix_def)
  from t3 [THEN conjunct2, THEN conjunct2, THEN conjunct2, THEN conjunct2, THEN mp,
      THEN conjunct1]
  have 3: "fst (CreateVerification (gateway env_up) id_new1 ''123456789012'' [''BASIC_INFORMATION'']
          ''test@example.com'' world0) =
       Inr \<lparr>ID = id_new1, Inn = ''123456789012'', Status = ''IN_PROCESS'',
            AuthorEmail = ''test@example.com'', CompanyID = None,
            RequestedDataTypes = [''BASIC_INFORMATION''], Data = [], CreatedAt = '''',
            UpdatedAt = ''''\<rparr>"
    by (simp add: env_up_publish)
  have m: "id_v1 \<in> v_id ` set (verifications world0)"
    by (simp add: world0_def)
  from t4 [THEN conjunct2, THEN conjunct2, THEN conjunct2, THEN conjunct2, THEN mp,
      THEN conjunct1]
  have 4: "ID (projr (fst (CreateVerification (gateway env_up) id_v1 ''123456789012''
          [''BASIC_INFORMATION''] ''test@example.com'' world0))) = id_v1"
    by (simp add: env_up_publish)
  from 0 1 2 i 3 m 4 show ?thesis by (intro conjI)
qed

text \<open>
  The claim C2 fails on an input that passes every check, the 12-digit identifier of the
  specification's own example with one requested type: when the bus refuses the request the
  call does not succeed, and its error is no InvalidArgument error. It also fails on the
  identifier \<open>123\<close> with no requested type: the error cites no length.
\<close>

theorem CreateVerification_valid_input_fails:
  "length ''123456789012'' = 12 \<and> [''BASIC_INFORMATION''] \<noteq> []
   \<and> fst (CreateVerification (gateway env_bus_down) id_new2 ''123456789012''
          [''BASIC_INFORMATION''] ''test@example.com'' world0) =
       Inl (Wrapf ''failed to publish verification request''
              (Wrapf ''failed to publish verification request''
                 (External ''nats connection failed'')))
   \<and> \<not> InvalidArgument (Wrapf ''failed to publish verification request''
              (Wrapf ''failed to publish verification request''
                 (External ''nats connection failed'')))
   \<and> fst (CreateVerification (gateway env_up) id_new2 ''123'' [] ''test@example.com'' world0) =
       Inl (Errorf ''at least one data type must be requested'')"
  by (simp add: CreateVerification_def PublishVerificationRequest_def env_bus_down_def
      env_up_def Let_def InvalidArgument_def)

subsection \<open>What a read returns depends on the tables only\<close>

lemma scan_data_rows_fst:
  "fst (scan_data_rows e rows data w) = fst (scan_data_rows e rows data w')"
  by (induction rows arbitrary: data w w') (auto split: sum.splits)

lemma scan_verification_rows_fst:
  "fst (scan_verification_rows e rows vs w) = fst (scan_verification_rows e rows vs w')"
  by (induction rows arbitrary: vs w w') (auto split: option.splits)

lemma GetByID_fst_cong:
  assumes "verifications w = verifications w'" "verification_data w = verification_data w'"
  shows "fst (verificationRepository_GetByID e vid w) = fst (verificationRepository_GetByID e vid w')"
proof -
  have q: "QueryRow_verification e vid w = QueryRow_verification e vid w'"
    by (simp add: QueryRow_verification_def assms cong: option.case_cong list.case_cong)
  have s: "select_data vid w = select_data vid w'"
    by (simp add: select_data_def assms)
  show ?thesis
    unfolding verificationRepository_GetByID_def q s Let_def
    by (auto split: sum.splits option.splits simp: case_prod_unfold
        intro: arg_cong [OF scan_data_rows_fst])
qed

lemma GetAll_fst_cong:
  assumes "verifications w = verifications w'"
  shows "fst (verificationRepository_GetAll e l off w) = fst (verificationRepository_GetAll e l off w')"
proof -
  have s: "select_all l off w = select_all l off w'"
    by (simp add: select_all_def assms)
  show ?thesis
    unfolding verificationRepository_GetAll_def s Let_def
    by (auto split: sum.splits option.splits simp: case_prod_unfold
        intro: scan_verification_rows_fst)
qed

lemma GetVerification_fst_cong:
  assumes "verifications w = verifications w'" "verification_data w = verification_data w'"
  shows "fst (GetVerification (gateway e) vid w) = fst (GetVerification (gateway e) vid w')"
  using GetByID_fst_cong [OF assms, of e vid]
  by (cases "verificationRepository_GetByID e vid w"; cases "verificationRepository_GetByID e vid w'")
    (auto simp: GetVerification_def split: sum.splits option.splits)

lemma GetAllVerifications_fst_cong:
  assumes "verifications w = verifications w'"
  shows "fst (GetAllVerifications (gateway e) l off w) = fst (GetAllVerifications (gateway e) l off w')"
  by (simp add: GetAllVerifications_def GetAll_fst_cong [OF assms])

lemma CreateVerification_tables:
  "verifications (snd (CreateVerification (gateway e) u inn ts a w)) = verifications w"
  "verification_data (snd (CreateVerification (gateway e) u inn ts a w)) = verification_data w"
  "verification_data_cache (snd (CreateVerification (gateway e) u inn ts a w)) =
     verification_data_cache w"
  "queries (snd (CreateVerification (gateway e) u inn ts a w)) = queries w"
proof -
  define v where "v = \<lparr>ID = u, Inn = inn, Status = VerificationStatusInProcess, AuthorEmail = a,
    CompanyID = None, RequestedDataTypes = ts, Data = [], CreatedAt = '''', UpdatedAt = ''''\<rparr>"
  obtain r w1 where p: "PublishVerificationRequest e v w = (r, w1)"
    by (cases "PublishVerificationRequest e v w")
  have t: "verifications w1 = verifications w" "verification_data w1 = verification_data w"
    "verification_data_cache w1 = verification_data_cache w" "queries w1 = queries w"
    using Publish_tables [of e v w] by (simp_all add: p)
  show "verifications (snd (CreateVerification (gateway e) u inn ts a w)) = verifications w"
    "verification_data (snd (CreateVerification (gateway e) u inn ts a w)) = verification_data w"
    "verification_data_cache (snd (CreateVerification (gateway e) u inn ts a w)) =
       verification_data_cache w"
    "queries (snd (CreateVerification (gateway e) u inn ts a w)) = queries w"
    using p t by (auto simp: CreateVerification_def v_def split: option.splits)
qed

text \<open>
  C4. For a valid creation input whose publish fails, CreateVerification returns the
  publish error, and the call leaves every table, the query trace and the bus as they were:
  every read by any caller answers as before the call.
\<close>

theorem CreateVerification_publish_failure:
  assumes "ts \<noteq> []" and "length inn = 10 \<or> length inn = 12"
    and "fst (PublishVerificationRequest e
                \<lparr>ID = u, Inn = inn, Status = ''IN_PROCESS'', AuthorEmail = a,
                 CompanyID = None, RequestedDataTypes = ts, Data = [], CreatedAt = '''',
                 UpdatedAt = ''''\<rparr> w) = Some perr"
  shows "fst (CreateVerification (gateway e) u inn ts a w) =
           Inl (Wrapf ''failed to publish verification request'' perr)
       \<and> verifications (snd (CreateVerification (gateway e) u inn ts a w)) = verifications w
       \<and> verification_data (snd (CreateVerification (gateway e) u inn ts a w)) = verification_data w
       \<and> verification_data_cache (snd (CreateVerification (gateway e) u inn ts a w)) =
           verification_data_cache w
       \<and> published (snd (CreateVerification (gateway e) u inn ts a w)) = published w
       \<and> (\<forall>vid. fst (GetVerification (gateway e) vid (snd (CreateVerification (gateway e) u inn ts a w)))
               = fst (GetVerification (gateway e) vid w))
       \<and> (\<forall>l off. fst (GetAllVerifications (gateway e) l off
                          (snd (CreateVerification (gateway e) u inn ts a w)))
               = fst (GetAllVerifications (gateway e) l off w))"
proof -
  let ?v = "\<lparr>ID = u, Inn = inn, Status = VerificationStatusInProcess, AuthorEmail = a,
    CompanyID = None, RequestedDataTypes = ts, Data = [], CreatedAt = '''', UpdatedAt = ''''\<rparr>"
  let ?w' = "snd (CreateVerification (gateway e) u inn ts a w)"
  have f: "fst (PublishVerificationRequest e ?v w) = Some perr"
    using assms(3) by (simp add: VerificationStatusInProcess_def)
  have r: "fst (CreateVerification (gateway e) u inn ts a w) =
      Inl (Wrapf ''failed to publish verification request'' perr)"
    using CreateVerification_gateway_valid [OF assms(1,2), of e u a w] f by simp
  have p: "published ?w' = published w"
    using Publish_failed_published [of e ?v w] f assms(1,2)
    by (cases "PublishVerificationRequest e ?v w")
      (auto simp: CreateVerification_def Let_def split: option.splits)
  have g: "\<forall>vid. fst (GetVerification (gateway e) vid ?w') = fst (GetVerification (gateway e) vid w)"
    by (intro allI GetVerification_fst_cong) (simp_all add: CreateVerification_tables)
  have l: "\<forall>l off. fst (GetAllVerifications (gateway e) l off ?w')
      = fst (GetAllVerifications (gateway e) l off w)"
    by (intro allI GetAllVerifications_fst_cong) (simp add: CreateVerification_tables)
  from r p g l show ?thesis
    by (simp add: CreateVerification_tables)
qed

lemma env_bus_down_publish:
  "fst (PublishVerificationRequest env_bus_down v w) =
     Some (Wrapf ''failed to publish verification request'' (External ''nats connection failed''))"
  by (simp add: PublishVerificationRequest_def env_bus_down_def env_up_def Let_def)

theorem CreateVerification_publish_failure_witness:
  "fst (CreateVerification (gateway env_bus_down) id_new1 ''1234567890'' [''BASIC_INFORMATION'']
          ''test@example.com'' world0) =
     Inl (Wrapf ''failed to publish verification request''
            (Wrapf ''failed to publish verification request'' (External ''nats connection failed'')))
   \<and> verifications (snd (CreateVerification (gateway env_bus_down) id_new1 ''1234567890''
          [''BASIC_INFORMATION''] ''test@example.com'' world0)) = verifications world0
   \<and> fst (GetVerification (gateway env_bus_down) id_new1
          (snd (CreateVerification (gateway env_bus_down) id_new1 ''1234567890''
             [''BASIC_INFORMATION''] ''test@example.com'' world0))) =
       fst (GetVerification (gateway env_bus_down) id_new1 world0)"
proof -
  have a: "[''BASIC_INFORMATION''] \<noteq> []" and b: "length ''1234567890'' = 10 \<or> length ''1234567890'' = 12"
    by simp_all
  from CreateVerification_publish_failure [OF a b env_bus_down_publish]
  show ?thesis by blast
qed

text \<open>
  C10. CreateVerification looks at the length of the subject identifier only: for every
  string of length 10 or 12, whatever its characters, the identifier is never rejected. The
  call fails only for an empty type set or a failed publish, and otherwise returns the
  Verification carrying the identifier as given.
\<close>

theorem CreateVerification_length_only:
  assumes "length inn = 10 \<or> length inn = 12"
  shows "fst (CreateVerification (gateway e) u inn ts a w) =
     (if ts = [] then Inl (Errorf ''at least one data type must be requested'')
      else case fst (PublishVerificationRequest e
                  \<lparr>ID = u, Inn = inn, Status = ''IN_PROCESS'', AuthorEmail = a,
                   CompanyID = None, RequestedDataTypes = ts, Data = [], CreatedAt = '''',
                   UpdatedAt = ''''\<rparr> w) of
             Some err \<Rightarrow> Inl (Wrapf ''failed to publish verification request'' err)
           | None \<Rightarrow>
               Inr \<lparr>ID = u, Inn = inn, Status = ''IN_PROCESS'', AuthorEmail = a,
                    CompanyID = None, RequestedDataTypes = ts, Data = [], CreatedAt = '''',
                    UpdatedAt = ''''\<rparr>)"
proof (cases "ts = []")
  case True
  from assms have "inn \<noteq> []" by auto
  with True show ?thesis by (simp add: CreateVerification_no_types)
next
  case False
  with CreateVerification_gateway_valid [OF False assms, of e u a w] show ?thesis
    unfolding VerificationStatusInProcess_def by simp
qed

theorem CreateVerification_length_only_witness:
  "fst (CreateVerification (gateway env_up) id_new2 ''abcdefghij'' [''BASIC_INFORMATION'']
          ''test@example.com'' world0) =
     Inr \<lparr>ID = id_new2, Inn = ''abcdefghij'', Status = ''IN_PROCESS'',
          AuthorEmail = ''test@example.com'', CompanyID = None,
          RequestedDataTypes = [''BASIC_INFORMATION''], Data = [], CreatedAt = '''',
          UpdatedAt = ''''\<rparr>"
proof -
  have "length ''abcdefghij'' = 10 \<or> length ''abcdefghij'' = 12" by simp
  from CreateVerification_length_only [OF this, of env_up "id_new2" "[''BASIC_INFORMATION'']"
      "''test@example.com''" world0]
  show ?thesis by (simp add: env_up_publish)
qed

subsection \<open>Completion notifications\<close>

lemma completed_callback_decoded:
  assumes "json_Unmarshal e d = Inr cm"
  shows "completed_callback e handler d w =
     logger LInfo ''verification completed message processed''
       [(''verification_id'', vcm_VerificationID cm), (''status'', vcm_Status cm)]
       (handler \<lparr>ID = vcm_VerificationID cm, Inn = '''', Status = vcm_Status cm,
                 AuthorEmail = '''', CompanyID = None, RequestedDataTypes = [], Data = [],
                 CreatedAt = '''', UpdatedAt = ''''\<rparr> w)"
  by (simp add: completed_callback_def assms)

text \<open>
  C9. A completion message whose payload does not decode is logged and dropped: whatever
  the handler is, the state after the callback is the state before it with one error line
  added to the log, so the handler did not run and no table, query or bus entry changed.
\<close>

theorem completed_callback_malformed:
  assumes "json_Unmarshal e d = Inl err"
  shows "completed_callback e handler d w =
           w\<lparr>logs := logs w @ [(LError, ''failed to unmarshal verification completed message'',
                                  [(''error'', Error err)])]\<rparr>
       \<and> verifications (completed_callback e handler d w) = verifications w
       \<and> verification_data (completed_callback e handler d w) = verification_data w
       \<and> verification_data_cache (completed_callback e handler d w) = verification_data_cache w"
  by (simp add: completed_callback_def assms logger_def)

theorem completed_callback_malformed_witness:
  "completed_callback env_up (\<lambda>v w. w\<lparr>verifications := []\<rparr>) ''invalid json'' world0 =
     world0\<lparr>logs := logs world0 @ [(LError, ''failed to unmarshal verification completed message'',
                                     [(''error'', ''invalid character'')])]\<rparr>
   \<and> verifications (completed_callback env_up (\<lambda>v w. w\<lparr>verifications := []\<rparr>) ''invalid json'' world0)
       = verifications world0"
proof -
  have "json_Unmarshal env_up ''invalid json'' = Inl (External ''invalid character'')"
    by (simp add: env_up_def completed_payload_def)
  from completed_callback_malformed [OF this, of "\<lambda>v w. w\<lparr>verifications := []\<rparr>" world0]
  show ?thesis by simp
qed

text \<open>
  C1, as the code has it. A completion notification that decodes reaches the handler as a
  Verification carrying the notification's ID and status and nothing else; the handler that
  \<open>main\<close> registers writes a log line. The state after the callback is the state before it
  with two log lines added: no stored Verification changes, its status included.
\<close>

theorem completed_callback_main_handler:
  assumes "json_Unmarshal e d = Inr cm"
  shows "completed_callback e main_handler d w =
           w\<lparr>logs := logs w @
                [(LInfo, ''Received verification completed notification'',
                  [(''verification_id'', vcm_VerificationID cm), (''status'', vcm_Status cm)]),
                 (LInfo, ''verification completed message processed'',
                  [(''verification_id'', vcm_VerificationID cm), (''status'', vcm_Status cm)])]\<rparr>
       \<and> verifications (completed_callback e main_handler d w) = verifications w
       \<and> (\<forall>vid. fst (GetVerification (gateway e) vid (completed_callback e main_handler d w))
               = fst (GetVerification (gateway e) vid w))
       \<and> (\<forall>handler. completed_callback e handler d w =
             logger LInfo ''verification completed message processed''
               [(''verification_id'', vcm_VerificationID cm), (''status'', vcm_Status cm)]
               (handler \<lparr>ID = vcm_VerificationID cm, Inn = '''', Status = vcm_Status cm,
                         AuthorEmail = '''', CompanyID = None, RequestedDataTypes = [], Data = [],
                         CreatedAt = '''', UpdatedAt = ''''\<rparr> w))"
proof -
  have eq: "completed_callback e main_handler d w =
           w\<lparr>logs := logs w @
                [(LInfo, ''Received verification completed notification'',
                  [(''verification_id'', vcm_VerificationID cm), (''status'', vcm_Status cm)]),
                 (LInfo, ''verification completed message processed'',
                  [(''verification_id'', vcm_VerificationID cm), (''status'', vcm_Status cm)])]\<rparr>"
    by (simp add: completed_callback_decoded [OF assms] main_handler_def logger_def)
  have "\<forall>vid. fst (GetVerification (gateway e) vid (completed_callback e main_handler d w))
               = fst (GetVerification (gateway e) vid w)"
    by (intro allI GetVerification_fst_cong) (simp_all add: eq)
  with eq completed_callback_decoded [OF assms, of _ w] show ?thesis by simp
qed

lemma env_up_decodes:
  "json_Unmarshal env_up completed_payload =
     Inr \<lparr>vcm_VerificationID = id_v1, vcm_Status = ''COMPLETED''\<rparr>"
  by (simp add: env_up_def)

theorem completed_callback_main_handler_witness:
  "completed_callback env_up main_handler completed_payload world0 =
     world0\<lparr>logs := logs world0 @
        [(LInfo, ''Received verification completed notification'',
          [(''verification_id'', id_v1), (''status'', ''COMPLETED'')]),
         (LInfo, ''verification completed message processed'',
          [(''verification_id'', id_v1), (''status'', ''COMPLETED'')])]\<rparr>
   \<and> verifications (completed_callback env_up main_handler completed_payload world0)
       = verifications world0"
proof -
  note t = completed_callback_main_handler [OF env_up_decodes, of world0]
  from t [THEN conjunct1]
  have 1: "completed_callback env_up main_handler completed_payload world0 =
     world0\<lparr>logs := logs world0 @
        [(LInfo, ''Received verification completed notification'',
          [(''verification_id'', id_v1), (''status'', ''COMPLETED'')]),
         (LInfo, ''verification completed message processed'',
          [(''verification_id'', id_v1), (''status'', ''COMPLETED'')])]\<rparr>"
    by simp
  from 1 t [THEN conjunct2, THEN conjunct1] show ?thesis
    by (rule conjI)
qed

text \<open>
  The claim C1 fails: the stored Verification \<open>id_v1\<close> is \<open>IN_PROCESS\<close>, the notification
  carries \<open>id_v1\<close> and \<open>COMPLETED\<close>, and after the callback a read still answers
  \<open>IN_PROCESS\<close>.
\<close>

theorem completed_status_not_updated:
  "json_Unmarshal env_up completed_payload =
     Inr \<lparr>vcm_VerificationID = id_v1, vcm_Status = ''COMPLETED''\<rparr>
   \<and> \<not> isl (fst (GetVerification (gateway env_up) id_v1
               (completed_callback env_up main_handler completed_payload world0)))
   \<and> Status (projr (fst (GetVerification (gateway env_up) id_v1
               (completed_callback env_up main_handler completed_payload world0)))) = ''IN_PROCESS''
   \<and> Status (projr (fst (GetVerification (gateway env_up) id_v1
               (completed_callback env_up main_handler completed_payload world0)))) \<noteq> ''COMPLETED''"
  by code_simp

subsection \<open>The cache lookup\<close>

lemma filter_unique_key:
  "distinct (map f xs) \<Longrightarrow> r \<in> set xs \<Longrightarrow> filter (\<lambda>x. f x = f r) xs = [r]"
proof (induction xs)
  case Nil
  then show ?case by simp
next
  case (Cons x xs)
  show ?case
  proof (cases "x = r")
    case True
    with Cons.prems have "\<forall>y \<in> set xs. f y \<noteq> f r" by (auto simp: image_iff)
    then have "filter (\<lambda>x. f x = f r) xs = []" by (simp add: filter_empty_conv)
    with True show ?thesis by simp
  next
    case False
    with Cons.prems have r: "r \<in> set xs" and d: "distinct (map f xs)" by auto
    from Cons.prems r have "f x \<noteq> f r" by (auto simp: image_iff)
    with Cons.IH [OF d r] show ?thesis by simp
  qed
qed

lemma QueryRow_cache_missing:
  assumes "hash \<notin> c_data_hash ` set (verification_data_cache w)"
  shows "\<exists>cause. QueryRow_cache e hash w = Inl cause"
proof -
  from assms have "filter (\<lambda>r. c_data_hash r = hash) (verification_data_cache w) = []"
    by (auto simp: filter_empty_conv)
  then show ?thesis
    by (simp add: QueryRow_cache_def split: option.splits)
qed

lemma QueryRow_cache_found:
  assumes "r \<in> set (verification_data_cache w)" "c_data_hash r = hash"
    and "distinct (map c_data_hash (verification_data_cache w))"
    and "Query_err e (SelectCacheByHash hash) = None" "Scan_err e (c_id r) = None"
  shows "QueryRow_cache e hash w = Inr r"
proof -
  have "filter (\<lambda>x. c_data_hash x = hash) (verification_data_cache w) = [r]"
    using filter_unique_key [OF assms(3,1)] assms(2) by simp
  then show ?thesis
    by (simp add: QueryRow_cache_def assms)
qed

text \<open>
  C8. GetDataByHash returns the stored payload of the entry with the given hash (the table
  holds one entry per hash, and the pool and the scan answer), and for every hash without an
  entry it fails with the error \<open>data not found in cache for hash <hash>\<close>.
\<close>

theorem GetDataByHash_contract:
  "(hash \<notin> c_data_hash ` set (verification_data_cache w) \<longrightarrow>
      (\<exists>cause. fst (GetDataByHash e hash w) =
                  Inl (Wrapf (''data not found in cache for hash '' @ hash) cause)
               \<and> NotFound (Wrapf (''data not found in cache for hash '' @ hash) cause)))
   \<and> (r \<in> set (verification_data_cache w) \<and> c_data_hash r = hash
        \<and> distinct (map c_data_hash (verification_data_cache w))
        \<and> Query_err e (SelectCacheByHash hash) = None \<and> Scan_err e (c_id r) = None \<longrightarrow>
      fst (GetDataByHash e hash w) = Inr (c_data r))"
proof (intro conjI impI)
  assume "hash \<notin> c_data_hash ` set (verification_data_cache w)"
  from QueryRow_cache_missing [OF this, of e] obtain cause
    where "QueryRow_cache e hash w = Inl cause" ..
  then have "fst (GetDataByHash e hash w) =
      Inl (Wrapf (''data not found in cache for hash '' @ hash) cause)"
    by (simp add: GetDataByHash_def)
  then show "\<exists>cause. fst (GetDataByHash e hash w) =
                  Inl (Wrapf (''data not found in cache for hash '' @ hash) cause)
               \<and> NotFound (Wrapf (''data not found in cache for hash '' @ hash) cause)"
    using NotFound_intros(2) by blast
next
  assume "r \<in> set (verification_data_cache w) \<and> c_data_hash r = hash
        \<and> distinct (map c_data_hash (verification_data_cache w))
        \<and> Query_err e (SelectCacheByHash hash) = None \<and> Scan_err e (c_id r) = None"
  then have "QueryRow_cache e hash w = Inr r"
    by (intro QueryRow_cache_found) auto
  then show "fst (GetDataByHash e hash w) = Inr (c_data r)"
    by (simp add: GetDataByHash_def)
qed

theorem GetDataByHash_contract_witness:
  "fst (GetDataByHash env_up ''abc123'' world0) = Inr ''{\"test\": \"data\"}''
   \<and> fst (GetDataByHash env_up ''nonexistent'' world0) =
       Inl (Wrapf ''data not found in cache for hash nonexistent'' ErrNoRows)"
proof -
  let ?r = "\<lparr>c_id = id_c1, c_data_hash = ''abc123'', c_data = ''{\"test\": \"data\"}'',
             c_created_at = 90\<rparr>"
  have a: "?r \<in> set (verification_data_cache world0) \<and> c_data_hash ?r = ''abc123''
      \<and> distinct (map c_data_hash (verification_data_cache world0))
      \<and> Query_err env_up (SelectCacheByHash ''abc123'') = None \<and> Scan_err env_up (c_id ?r) = None"
    by (simp add: world0_def fixture_ids env_up_def)
  have b: "''nonexistent'' \<notin> c_data_hash ` set (verification_data_cache world0)"
    by (simp add: world0_def fixture_ids)
  have c: "fst (GetDataByHash env_up ''nonexistent'' world0) =
       Inl (Wrapf ''data not found in cache for hash nonexistent'' ErrNoRows)"
    by code_simp
  from GetDataByHash_contract [of "''abc123''" world0 env_up ?r] a
  have "fst (GetDataByHash env_up ''abc123'' world0) = Inr ''{\"test\": \"data\"}''"
    by simp
  moreover from GetDataByHash_contract [of "''nonexistent''" world0 env_up ?r] b c
  have "fst (GetDataByHash env_up ''nonexistent'' world0) =
       Inl (Wrapf ''data not found in cache for hash nonexistent'' ErrNoRows)"
    by blast
  ultimately show ?thesis by simp
qed

subsection \<open>Reading one verification\<close>

lemma scan_data_rows_result:
  "fst (scan_data_rows e rows data w) = data @ read_data e rows"
  by (induction rows arbitrary: data w)
    (auto simp: read_data_def List.map_filter_simps scanned_data_def split: sum.splits)

lemma scan_data_rows_logs:
  "logs (snd (scan_data_rows e rows data w)) = logs w @ read_data_log e rows"
  by (induction rows arbitrary: data w)
    (auto simp: read_data_log_def scanned_data_def logger_def split: sum.splits)

lemma scan_data_rows_tables [simp]:
  "verifications (snd (scan_data_rows e rows data w)) = verifications w"
  "verification_data (snd (scan_data_rows e rows data w)) = verification_data w"
  "verification_data_cache (snd (scan_data_rows e rows data w)) = verification_data_cache w"
  "queries (snd (scan_data_rows e rows data w)) = queries w"
  by (induction rows arbitrary: data w) (auto split: sum.splits)


lemma rows_Next_all: "Rows_err e q = None \<Longrightarrow> rows_Next e q rows = rows"
  by (simp add: rows_Next_def)


lemma QueryRow_verification_found:
  assumes "r \<in> set (verifications w)" "v_id r = vid" "distinct (map v_id (verifications w))"
    and "Query_err e (SelectVerificationByID vid) = None" "Scan_err e vid = None"
    and "uuid_in e vid = None"
  shows "QueryRow_verification e vid w = Inr r"
proof -
  have "filter (\<lambda>x. v_id x = vid) (verifications w) = [r]"
    using filter_unique_key [OF assms(3,1)] assms(2) by simp
  then show ?thesis
    by (simp add: QueryRow_verification_def assms)
qed



lemma GetByID_found:
  assumes "r \<in> set (verifications w)" "v_id r = vid" "distinct (map v_id (verifications w))"
    and "Query_err e (SelectVerificationByID vid) = None" "Scan_err e vid = None"
    and "uuid_in e vid = None"
    and "Query_err e (SelectDataByVerification vid) = None"
  shows "fst (verificationRepository_GetByID e vid w) =
           Inr (Some ((scan_verification e r)
                  \<lparr>Data := read_data e (rows_Next e (SelectDataByVerification vid)
                                          (select_data vid w))\<rparr>))"
    and "logs (snd (verificationRepository_GetByID e vid w)) =
           logs w @ read_data_log e (rows_Next e (SelectDataByVerification vid)
                                       (select_data vid w))"
  by (simp_all add: verificationRepository_GetByID_def
      QueryRow_verification_found [OF assms(1-6)] assms(7) Let_def case_prod_unfold
      scan_data_rows_result scan_data_rows_logs)









subsection \<open>The data records of a verification\<close>

lemma sorted_select_data: "sorted (map d_created_at (select_data vid w))"
  by (simp add: select_data_def)

lemma mset_select_data:
  "mset (select_data vid w) = mset (filter (\<lambda>x. d_verification_id x = vid) (verification_data w))"
  by (simp add: select_data_def)

lemma scanned_data_ok:
  "Scan_err e (d_id x) = None \<Longrightarrow> d_data x = Some s \<Longrightarrow>
   scanned_data e x = Some \<lparr>vd_DataType = d_data_type x, vd_Data = s,
                            vd_CreatedAt = RFC3339 e (d_created_at x)\<rparr>"
  by (simp add: scanned_data_def rows_Scan_data_def)

text \<open>
  What the code does when it lists the data records of a verification: they are read from the
  rows of \<^verbatim>\<open>verification_data\<close> themselves, in ascending creation time, each row giving
  (dataType, its own data column, createdAt). No hash is looked up: the result is the same
  whatever the cache table holds. The first row that fails to scan adds an error line to the
  log and ends the reading; so does, without a log line, the breaking of the result set. The
  records read until then are returned, and no error.
\<close>

lemma GetByID_data_records:
  assumes "r \<in> set (verifications w)" and "v_id r = vid" and "distinct (map v_id (verifications w))"
    and "Query_err e (SelectVerificationByID vid) = None" and "Scan_err e vid = None"
    and "uuid_in e vid = None"
    and "Query_err e (SelectDataByVerification vid) = None"
  shows "fst (verificationRepository_GetByID e vid w) =
           Inr (Some ((scan_verification e r)
                  \<lparr>Data := read_data e (rows_Next e (SelectDataByVerification vid)
                                          (select_data vid w))\<rparr>))
       \<and> sorted (map d_created_at (select_data vid w))
       \<and> mset (select_data vid w) =
           mset (filter (\<lambda>x. d_verification_id x = vid) (verification_data w))
       \<and> (\<forall>x s. Scan_err e (d_id x) = None \<and> d_data x = Some s \<longrightarrow>
             scanned_data e x = Some \<lparr>vd_DataType = d_data_type x, vd_Data = s,
                                      vd_CreatedAt = RFC3339 e (d_created_at x)\<rparr>)
       \<and> logs (snd (verificationRepository_GetByID e vid w)) =
           logs w @ read_data_log e (rows_Next e (SelectDataByVerification vid)
                                       (select_data vid w))
       \<and> (\<forall>c. fst (verificationRepository_GetByID e vid (w\<lparr>verification_data_cache := c\<rparr>)) =
               fst (verificationRepository_GetByID e vid w))"
proof -
  have "\<forall>c. fst (verificationRepository_GetByID e vid (w\<lparr>verification_data_cache := c\<rparr>)) =
               fst (verificationRepository_GetByID e vid w)"
    by (intro allI GetByID_fst_cong) simp_all
  with GetByID_found [OF assms] sorted_select_data [of vid w] mset_select_data [of vid w]
    scanned_data_ok [of e]
  show ?thesis by blast
qed

lemma GetByID_data_records_evaluated:
  "map vd_DataType (Data (the (projr (fst (verificationRepository_GetByID env_scan_fails id_v1
      world0))))) = [''BASIC_INFORMATION'']
   \<and> logs (snd (verificationRepository_GetByID env_scan_fails id_v1 world0)) =
       [(LError, ''failed to scan verification data'', [(''error'', ''scan failed'')])]
   \<and> map vd_DataType (Data (the (projr (fst (verificationRepository_GetByID env_rows_break id_v1
      world0))))) = [''BASIC_INFORMATION'']
   \<and> logs (snd (verificationRepository_GetByID env_rows_break id_v1 world0)) = []"
  by code_simp

text \<open>
  C5 asks that every data record be resolved by dereferencing its hash through the cache, a
  record whose hash does not resolve being logged and skipped while the others are returned.
  The code, evaluated. On a store that still has the data column (migrations 001 to 004):
  the hash of the \<open>ACTIVITIES\<close> record resolves to no cache entry, yet the record is
  returned and nothing is logged; the hash of the \<open>AFFILIATED_COMPANIES\<close> record resolves
  to another payload than the one returned; the payloads are the rows' own. Once migration
  005 has dropped the column that the query selects, the query fails and the retrieval is
  aborted with an error.
\<close>

theorem GetByID_does_not_dereference:
  "isl (fst (GetDataByHash env_up ''dangling'' world0))
   \<and> fst (GetDataByHash env_up ''abc123'' world0) = Inr ''{\"test\": \"data\"}''
   \<and> map vd_DataType (Data (the (projr (fst (verificationRepository_GetByID env_up
        id_v1 world0))))) =
       [''BASIC_INFORMATION'', ''ACTIVITIES'', ''AFFILIATED_COMPANIES'']
   \<and> map vd_Data (Data (the (projr (fst (verificationRepository_GetByID env_up
        id_v1 world0))))) =
       [''{\"name\": \"Acme\"}'', ''{\"activities\": []}'', ''{\"companies\": []}'']
   \<and> logs (snd (verificationRepository_GetByID env_up
        id_v1 world0)) = []
   \<and> fst (verificationRepository_GetByID env_data_column_dropped
        id_v1 world0) =
       Inl (Wrapf ''failed to get verification data''
              (External ''column \"data\" does not exist''))"
  by code_simp

subsection \<open>Listing verifications\<close>

lemma scan_verification_rows_result:
  "fst (scan_verification_rows e rows vs w) =
     vs @ map (scan_verification e) (takeWhile (\<lambda>r. Scan_err e (v_id r) = None) rows)"
  by (induction rows arbitrary: vs w) (auto split: option.splits)

lemma sorted_desc_ordered:
  "sorted_wrt (\<lambda>a b. b \<le> a) (map v_created_at (rev (sort_key v_created_at xs)))"
proof -
  have "sorted (map v_created_at (sort_key v_created_at xs))"
    by (rule sorted_sort_key)
  then show ?thesis
    by (simp add: rev_map [symmetric] sorted_wrt_rev)
qed

lemma select_all_sorted:
  assumes "select_all l off w = Inr rows"
  shows "sorted_wrt (\<lambda>a b. b \<le> a) (map v_created_at rows) \<and> set rows \<subseteq> set (verifications w)"
proof -
  let ?ordered = "rev (sort_key v_created_at (verifications w))"
  have s: "sorted_wrt (\<lambda>a b. b \<le> a) (map v_created_at ?ordered)"
    by (rule sorted_desc_ordered)
  have t: "\<And>n. sorted_wrt (\<lambda>a b. b \<le> a) (map v_created_at (take n ?ordered))"
    using sorted_wrt_take [OF s] by (simp add: take_map)
  have d: "\<And>n. sorted_wrt (\<lambda>a b. b \<le> a) (map v_created_at (drop n ?ordered))"
    using sorted_wrt_drop [OF s] by (simp add: drop_map)
  have td: "\<And>n m. sorted_wrt (\<lambda>a b. b \<le> a) (map v_created_at (take n (drop m ?ordered)))"
    using sorted_wrt_take [OF d] by (simp add: take_map)
  from assms s t d td show ?thesis
    by (auto simp: select_all_def Let_def split: option.splits if_splits
        dest!: in_set_takeD in_set_dropD)
qed

lemma rows_Next_take: "\<exists>n. rows_Next e q rows = take n rows"
proof (cases "Rows_err e q")
  case None
  then have "rows_Next e q rows = take (length rows) rows"
    by (simp add: rows_Next_def)
  then show ?thesis ..
next
  case (Some a)
  then have "rows_Next e q rows = take (fst a) rows"
    by (simp add: rows_Next_def case_prod_unfold)
  then show ?thesis ..
qed

lemma seen_rows_take:
  "\<exists>n. takeWhile P (rows_Next e q rows) = take n rows"
proof -
  from rows_Next_take obtain n where n: "rows_Next e q rows = take n rows" by blast
  have "takeWhile P (take n rows) = take (length (takeWhile P (take n rows))) (take n rows)"
    by (rule takeWhile_eq_take)
  then have "takeWhile P (take n rows) = take (min (length (takeWhile P (take n rows))) n) rows"
    by (simp only: take_take)
  with n show ?thesis by auto
qed

lemma GetAll_result:
  assumes "fst (verificationRepository_GetAll e l off w) = Inr vs"
  shows "\<exists>rows. vs = map (scan_verification e) rows
           \<and> sorted_wrt (\<lambda>a b. b \<le> a) (map v_created_at rows)
           \<and> set rows \<subseteq> set (verifications w)"
proof -
  let ?base = "case select_all l off w of Inl err \<Rightarrow> [] | Inr rows \<Rightarrow> rows"
  let ?seen = "takeWhile (\<lambda>r. Scan_err e (v_id r) = None)
                 (rows_Next e (SelectAllVerifications l off) ?base)"
  from assms have v: "vs = map (scan_verification e) ?seen"
    by (auto simp: verificationRepository_GetAll_def Let_def case_prod_unfold
        scan_verification_rows_result split: option.splits)
  have b: "sorted_wrt (\<lambda>a b. b \<le> a) (map v_created_at ?base) \<and> set ?base \<subseteq> set (verifications w)"
    using select_all_sorted [of l off w] by (cases "select_all l off w") auto
  from seen_rows_take obtain n where n: "?seen = take n ?base" by blast
  from b have "sorted_wrt (\<lambda>a b. b \<le> a) (map v_created_at (take n ?base))"
    using sorted_wrt_take [of "\<lambda>a b. b \<le> a" "map v_created_at ?base" n] by (simp add: take_map)
  moreover from b have "set (take n ?base) \<subseteq> set (verifications w)"
    by (auto dest!: in_set_takeD)
  ultimately show ?thesis using v n by metis
qed

lemma GetAll_no_faults:
  assumes "Query_err e (SelectAllVerifications l off) = None"
    and "Rows_err e (SelectAllVerifications l off) = None"
    and "\<forall>r \<in> set (verifications w). Scan_err e (v_id r) = None"
    and "select_all l off w = Inr rows"
  shows "fst (verificationRepository_GetAll e l off w) = Inr (map (scan_verification e) rows)"
proof -
  from select_all_sorted [OF assms(4)] assms(3)
  have "\<forall>r \<in> set rows. Scan_err e (v_id r) = None"
    by auto
  then have "takeWhile (\<lambda>r. Scan_err e (v_id r) = None) rows = rows"
    by (induction rows) auto
  then show ?thesis
    unfolding verificationRepository_GetAll_def
    by (simp add: Let_def case_prod_unfold assms(1,2,4) scan_verification_rows_result
        rows_Next_all del: takeWhile_eq_all_conv)
qed

lemma select_all_valid:
  assumes "\<forall>l. limit = Some l \<longrightarrow> 0 \<le> sint l" "\<forall>off. offset = Some off \<longrightarrow> 0 \<le> sint off"
  shows "select_all limit offset w =
     Inr ((case limit of None \<Rightarrow> (\<lambda>xs. xs) | Some l \<Rightarrow> take (nat (sint l)))
            ((case offset of None \<Rightarrow> (\<lambda>xs. xs) | Some off \<Rightarrow> drop (nat (sint off)))
               (rev (sort_key v_created_at (verifications w)))))"
  using assms by (auto simp: select_all_def Let_def split: option.splits)

lemma GetAllVerifications_valid:
  assumes "\<forall>l. limit = Some l \<longrightarrow> 0 \<le> sint l" "\<forall>off. offset = Some off \<longrightarrow> 0 \<le> sint off"
  shows "GetAllVerifications (gateway e) limit offset w = verificationRepository_GetAll e limit offset w"
  using assms by (cases limit; cases offset) (auto simp: GetAllVerifications_def)

lemma GetAllVerifications_Inr_valid:
  assumes "fst (GetAllVerifications (gateway e) limit offset w) = Inr vs"
  shows "(\<forall>l. limit = Some l \<longrightarrow> 0 \<le> sint l) \<and> (\<forall>off. offset = Some off \<longrightarrow> 0 \<le> sint off)"
  using assms by (cases limit; cases offset) (auto simp: GetAllVerifications_def split: if_splits)

text \<open>
  C6. A negative limit, or a negative offset, is rejected with the error naming the value,
  and the state is returned untouched: no query is sent. Every list the call returns is in
  descending creation time. With both bounds valid, the pool answering, the result set
  arriving whole and every row scanning, the result is the descending list after dropping
  \<open>offset\<close> rows and keeping \<open>limit\<close> rows, a nil bound dropping or cutting nothing; with
  both nil it is every record.
\<close>

theorem GetAllVerifications_contract:
  "(limit = Some l \<and> sint l < 0 \<longrightarrow>
      GetAllVerifications (gateway e) limit offset w =
        (Inl (Errorf (''limit must be non-negative, got '' @ Sprintf_d (sint l))), w)
      \<and> InvalidArgument (Errorf (''limit must be non-negative, got '' @ Sprintf_d (sint l))))
   \<and> (offset = Some off \<and> sint off < 0 \<and> (\<forall>l'. limit = Some l' \<longrightarrow> 0 \<le> sint l') \<longrightarrow>
      GetAllVerifications (gateway e) limit offset w =
        (Inl (Errorf (''offset must be non-negative, got '' @ Sprintf_d (sint off))), w)
      \<and> InvalidArgument (Errorf (''offset must be non-negative, got '' @ Sprintf_d (sint off))))
   \<and> (fst (GetAllVerifications (gateway e) limit offset w) = Inr vs \<longrightarrow>
      (\<exists>rows. vs = map (scan_verification e) rows
         \<and> sorted_wrt (\<lambda>a b. b \<le> a) (map v_created_at rows)
         \<and> set rows \<subseteq> set (verifications w)))
   \<and> ((\<forall>l'. limit = Some l' \<longrightarrow> 0 \<le> sint l') \<and> (\<forall>off'. offset = Some off' \<longrightarrow> 0 \<le> sint off')
       \<and> Query_err e (SelectAllVerifications limit offset) = None
       \<and> Rows_err e (SelectAllVerifications limit offset) = None
       \<and> (\<forall>r \<in> set (verifications w). Scan_err e (v_id r) = None) \<longrightarrow>
      fst (GetAllVerifications (gateway e) limit offset w) =
        Inr (map (scan_verification e)
               ((case limit of None \<Rightarrow> (\<lambda>xs. xs) | Some l' \<Rightarrow> take (nat (sint l')))
                  ((case offset of None \<Rightarrow> (\<lambda>xs. xs) | Some off' \<Rightarrow> drop (nat (sint off')))
                     (rev (sort_key v_created_at (verifications w)))))))
   \<and> (Query_err e (SelectAllVerifications None None) = None
       \<and> Rows_err e (SelectAllVerifications None None) = None
       \<and> (\<forall>r \<in> set (verifications w). Scan_err e (v_id r) = None) \<longrightarrow>
      (\<exists>rows. fst (GetAllVerifications (gateway e) None None w) = Inr (map (scan_verification e) rows)
         \<and> mset rows = mset (verifications w)
         \<and> sorted_wrt (\<lambda>a b. b \<le> a) (map v_created_at rows)))"
proof (intro conjI impI)
  assume "limit = Some l \<and> sint l < 0"
  then show "GetAllVerifications (gateway e) limit offset w =
        (Inl (Errorf (''limit must be non-negative, got '' @ Sprintf_d (sint l))), w)"
    by (simp add: GetAllVerifications_def)
next
  show "InvalidArgument (Errorf (''limit must be non-negative, got '' @ Sprintf_d (sint l)))"
    by (rule InvalidArgument_intros)
next
  assume "offset = Some off \<and> sint off < 0 \<and> (\<forall>l'. limit = Some l' \<longrightarrow> 0 \<le> sint l')"
  then show "GetAllVerifications (gateway e) limit offset w =
        (Inl (Errorf (''offset must be non-negative, got '' @ Sprintf_d (sint off))), w)"
    by (cases limit) (auto simp: GetAllVerifications_def)
next
  show "InvalidArgument (Errorf (''offset must be non-negative, got '' @ Sprintf_d (sint off)))"
    by (rule InvalidArgument_intros)
next
  assume r: "fst (GetAllVerifications (gateway e) limit offset w) = Inr vs"
  from GetAllVerifications_Inr_valid [OF r]
  have "GetAllVerifications (gateway e) limit offset w =
      verificationRepository_GetAll e limit offset w"
    by (intro GetAllVerifications_valid) auto
  with r have "fst (verificationRepository_GetAll e limit offset w) = Inr vs" by simp
  from GetAll_result [OF this]
  show "\<exists>rows. vs = map (scan_verification e) rows
         \<and> sorted_wrt (\<lambda>a b. b \<le> a) (map v_created_at rows)
         \<and> set rows \<subseteq> set (verifications w)" .
next
  assume h: "(\<forall>l'. limit = Some l' \<longrightarrow> 0 \<le> sint l') \<and> (\<forall>off'. offset = Some off' \<longrightarrow> 0 \<le> sint off')
       \<and> Query_err e (SelectAllVerifications limit offset) = None
       \<and> Rows_err e (SelectAllVerifications limit offset) = None
       \<and> (\<forall>r \<in> set (verifications w). Scan_err e (v_id r) = None)"
  then have v: "\<forall>l'. limit = Some l' \<longrightarrow> 0 \<le> sint l'" "\<forall>off'. offset = Some off' \<longrightarrow> 0 \<le> sint off'"
    and q: "Query_err e (SelectAllVerifications limit offset) = None"
    and rw: "Rows_err e (SelectAllVerifications limit offset) = None"
    and sc: "\<forall>r \<in> set (verifications w). Scan_err e (v_id r) = None"
    by auto
  from GetAll_no_faults [OF q rw sc select_all_valid [OF v]] GetAllVerifications_valid [OF v, of e w]
  show "fst (GetAllVerifications (gateway e) limit offset w) =
        Inr (map (scan_verification e)
               ((case limit of None \<Rightarrow> (\<lambda>xs. xs) | Some l' \<Rightarrow> take (nat (sint l')))
                  ((case offset of None \<Rightarrow> (\<lambda>xs. xs) | Some off' \<Rightarrow> drop (nat (sint off')))
                     (rev (sort_key v_created_at (verifications w))))))"
    by simp
next
  assume h: "Query_err e (SelectAllVerifications None None) = None
       \<and> Rows_err e (SelectAllVerifications None None) = None
       \<and> (\<forall>r \<in> set (verifications w). Scan_err e (v_id r) = None)"
  then have q: "Query_err e (SelectAllVerifications None None) = None"
    and rw: "Rows_err e (SelectAllVerifications None None) = None"
    and sc: "\<forall>r \<in> set (verifications w). Scan_err e (v_id r) = None"
    by auto
  have s: "select_all None None w = Inr (rev (sort_key v_created_at (verifications w)))"
    by (simp add: select_all_def)
  from GetAll_no_faults [OF q rw sc s]
  have "fst (GetAllVerifications (gateway e) None None w) =
      Inr (map (scan_verification e) (rev (sort_key v_created_at (verifications w))))"
    by (simp add: GetAllVerifications_def)
  moreover have "mset (rev (sort_key v_created_at (verifications w))) = mset (verifications w)"
    by simp
  ultimately show "\<exists>rows. fst (GetAllVerifications (gateway e) None None w) =
         Inr (map (scan_verification e) rows)
         \<and> mset rows = mset (verifications w)
         \<and> sorted_wrt (\<lambda>a b. b \<le> a) (map v_created_at rows)"
    using sorted_desc_ordered by blast
qed

theorem GetAllVerifications_contract_witness:
  "GetAllVerifications (gateway env_up) (Some (- 1)) (Some 0) world0 =
     (Inl (Errorf ''limit must be non-negative, got -1''), world0)
   \<and> GetAllVerifications (gateway env_up) (Some 10) (Some (- 5)) world0 =
       (Inl (Errorf ''offset must be non-negative, got -5''), world0)
   \<and> map ID (projr (fst (GetAllVerifications (gateway env_up) None None world0))) =
       [id_v2, id_v1]
   \<and> map ID (projr (fst (GetAllVerifications (gateway env_up) (Some 1) (Some 1) world0))) =
       [id_v1]"
proof -
  have n1: "Sprintf_d (sint (- 1 :: 32 word)) = ''-1''" and n5: "Sprintf_d (sint (- 5 :: 32 word)) = ''-5''"
    by (simp_all add: Sprintf_d_def itoa.simps)
  have a: "Some (- 1 :: 32 word) = Some (- 1) \<and> sint (- 1 :: 32 word) < 0"
    by simp
  have b: "Some (- 5 :: 32 word) = Some (- 5) \<and> sint (- 5 :: 32 word) < 0
      \<and> (\<forall>l'. Some (10 :: 32 word) = Some l' \<longrightarrow> 0 \<le> sint l')"
    by simp
  have c: "(\<forall>l'. (None :: 32 word option) = Some l' \<longrightarrow> 0 \<le> sint l')
       \<and> (\<forall>off'. (None :: 32 word option) = Some off' \<longrightarrow> 0 \<le> sint off')
       \<and> Query_err env_up (SelectAllVerifications None None) = None
       \<and> Rows_err env_up (SelectAllVerifications None None) = None
       \<and> (\<forall>r \<in> set (verifications world0). Scan_err env_up (v_id r) = None)"
    by (simp add: env_up_def)
  have d: "(\<forall>l'. Some (1 :: 32 word) = Some l' \<longrightarrow> 0 \<le> sint l')
       \<and> (\<forall>off'. Some (1 :: 32 word) = Some off' \<longrightarrow> 0 \<le> sint off')
       \<and> Query_err env_up (SelectAllVerifications (Some 1) (Some 1)) = None
       \<and> Rows_err env_up (SelectAllVerifications (Some 1) (Some 1)) = None
       \<and> (\<forall>r \<in> set (verifications world0). Scan_err env_up (v_id r) = None)"
    by (simp add: env_up_def)
  have ev: "map ID (map (scan_verification env_up)
      (rev (sort_key v_created_at (verifications world0)))) = [id_v2, id_v1]"
    by code_simp
  have ev1: "map ID (map (scan_verification env_up)
      (take (nat (sint (1 :: 32 word))) (drop (nat (sint (1 :: 32 word)))
         (rev (sort_key v_created_at (verifications world0)))))) = [id_v1]"
    by code_simp
  from GetAllVerifications_contract [where limit = "Some (- 1)" and l = "- 1" and e = env_up
      and offset = "Some 0" and w = world0 and off = 0 and vs = "[]"] a n1
  have 1: "GetAllVerifications (gateway env_up) (Some (- 1)) (Some 0) world0 =
     (Inl (Errorf ''limit must be non-negative, got -1''), world0)"
    by simp
  from GetAllVerifications_contract [where limit = "Some 10" and l = 10 and e = env_up
      and offset = "Some (- 5)" and w = world0 and off = "- 5" and vs = "[]"] b n5
  have 2: "GetAllVerifications (gateway env_up) (Some 10) (Some (- 5)) world0 =
       (Inl (Errorf ''offset must be non-negative, got -5''), world0)"
    by simp
  from GetAllVerifications_contract [where limit = None and l = 0 and e = env_up
      and offset = None and w = world0 and off = 0 and vs = "[]"] c
  have 3: "fst (GetAllVerifications (gateway env_up) None None world0) =
      Inr (map (scan_verification env_up) (rev (sort_key v_created_at (verifications world0))))"
    by simp
  note t4 = GetAllVerifications_contract [where limit = "Some 1" and l = 1 and e = env_up
      and offset = "Some 1" and w = world0 and off = 1 and vs = "[]"]
  from t4 [THEN conjunct2, THEN conjunct2, THEN conjunct2, THEN conjunct1] d
  have 4: "fst (GetAllVerifications (gateway env_up) (Some 1) (Some 1) world0) =
      Inr (map (scan_verification env_up)
        (take (nat (sint (1 :: 32 word))) (drop (nat (sint (1 :: 32 word)))
           (rev (sort_key v_created_at (verifications world0))))))"
    by simp
  from 1 2 3 4 ev ev1 show ?thesis by simp
qed

subsection \<open>The cache table under the backfill\<close>

lemma insert_cache_existing:
  "\<exists>r \<in> set tbl. c_data_hash r = h \<Longrightarrow> insert_cache_on_conflict_do_nothing i n h d tbl = tbl"
  by (simp add: insert_cache_on_conflict_do_nothing_def)

lemma insert_cache_has_hash:
  "\<exists>r \<in> set (insert_cache_on_conflict_do_nothing i n h d tbl). c_data_hash r = h"
  by (auto simp: insert_cache_on_conflict_do_nothing_def)

lemma insert_cache_twice:
  "insert_cache_on_conflict_do_nothing i2 n2 h d2
     (insert_cache_on_conflict_do_nothing i1 n1 h d1 tbl) =
   insert_cache_on_conflict_do_nothing i1 n1 h d1 tbl"
  by (rule insert_cache_existing [OF insert_cache_has_hash])

lemma insert_cache_distinct:
  "distinct (map c_data_hash tbl) \<Longrightarrow>
   distinct (map c_data_hash (insert_cache_on_conflict_do_nothing i n h d tbl))"
  by (auto simp: insert_cache_on_conflict_do_nothing_def)

lemma insert_cache_hashes:
  "c_data_hash ` set (insert_cache_on_conflict_do_nothing i n h d tbl) =
     insert h (c_data_hash ` set tbl)"
  by (auto simp: insert_cache_on_conflict_do_nothing_def)

lemma insert_cache_addressed:
  "\<forall>c \<in> set tbl. c_data_hash c = H (c_data c) \<Longrightarrow>
   \<forall>c \<in> set (insert_cache_on_conflict_do_nothing i n (H d) d tbl). c_data_hash c = H (c_data c)"
  by (auto simp: insert_cache_on_conflict_do_nothing_def)

lemma insert_cache_prefix:
  "\<exists>new. insert_cache_on_conflict_do_nothing i n h d tbl = tbl @ new"
  by (auto simp: insert_cache_on_conflict_do_nothing_def)

lemma insert_cache_data:
  "c_data ` set (insert_cache_on_conflict_do_nothing i n h d tbl) \<subseteq> insert d (c_data ` set tbl)"
  by (auto simp: insert_cache_on_conflict_do_nothing_def)

lemma unique_hash_count:
  assumes "distinct (map c_data_hash tbl)" "\<exists>r \<in> set tbl. c_data_hash r = h"
  shows "length (filter (\<lambda>r. c_data_hash r = h) tbl) = 1"
proof -
  from assms(2) obtain r where r: "r \<in> set tbl" "c_data_hash r = h" by blast
  from filter_unique_key [OF assms(1) r(1)] r(2) show ?thesis by simp
qed

lemma migrate_step_cache:
  "verification_data_cache (migrate_step H i n rec w) =
     insert_cache_on_conflict_do_nothing i n (H (snd rec)) (snd rec) (verification_data_cache w)"
  by (simp add: migrate_step_def Let_def)

lemma migrate_step_data:
  "verification_data (migrate_step H i n rec w) =
     map (\<lambda>r. if d_id r = fst rec then r\<lparr>d_data_hash := Some (H (snd rec))\<rparr> else r)
       (verification_data w)"
  by (simp add: migrate_step_def Let_def)

lemma migrate_step_verifications:
  "verifications (migrate_step H i n rec w) = verifications w"
  by (simp add: migrate_step_def Let_def)

lemma migrate_loop_count:
  "fst (migrate_loop H gen_random_uuid now recs n w) = n + length recs"
  by (induction recs arbitrary: n w) simp_all

lemma migrate_loop_verifications:
  "verifications (snd (migrate_loop H gen_random_uuid now recs n w)) = verifications w"
  by (induction recs arbitrary: n w) (simp_all add: migrate_step_verifications)

lemma migrate_loop_distinct:
  "distinct (map c_data_hash (verification_data_cache w)) \<Longrightarrow>
   distinct (map c_data_hash
     (verification_data_cache (snd (migrate_loop H gen_random_uuid now recs n w))))"
  by (induction recs arbitrary: n w) (simp_all add: migrate_step_cache insert_cache_distinct)

lemma migrate_loop_hashes:
  "c_data_hash ` set (verification_data_cache (snd (migrate_loop H gen_random_uuid now recs n w))) =
     c_data_hash ` set (verification_data_cache w) \<union> (\<lambda>rec. H (snd rec)) ` set recs"
  by (induction recs arbitrary: n w) (simp_all add: migrate_step_cache insert_cache_hashes)

lemma migrate_loop_addressed:
  "\<forall>c \<in> set (verification_data_cache w). c_data_hash c = H (c_data c) \<Longrightarrow>
   \<forall>c \<in> set (verification_data_cache (snd (migrate_loop H gen_random_uuid now recs n w))).
     c_data_hash c = H (c_data c)"
proof (induction recs arbitrary: n w)
  case Nil
  then show ?case by simp
next
  case (Cons rec recs)
  from Cons.prems
  have "\<forall>c \<in> set (verification_data_cache (migrate_step H (gen_random_uuid n) now rec w)).
      c_data_hash c = H (c_data c)"
    unfolding migrate_step_cache by (rule insert_cache_addressed)
  from Cons.IH [OF this] show ?case by simp
qed

lemma migrate_loop_prefix:
  "\<exists>new. verification_data_cache (snd (migrate_loop H gen_random_uuid now recs n w)) =
     verification_data_cache w @ new"
proof (induction recs arbitrary: n w)
  case Nil
  show ?case by simp
next
  case (Cons rec recs)
  let ?w = "migrate_step H (gen_random_uuid n) now rec w"
  from Cons.IH [of "n + 1" ?w] obtain new where
    a: "verification_data_cache (snd (migrate_loop H gen_random_uuid now recs (n + 1) ?w)) =
      verification_data_cache ?w @ new"
    by blast
  from insert_cache_prefix obtain new' where
    b: "verification_data_cache ?w = verification_data_cache w @ new'"
    unfolding migrate_step_cache by blast
  from a b show ?case by simp
qed

lemma migrate_loop_cache_data:
  "c_data ` set (verification_data_cache (snd (migrate_loop H gen_random_uuid now recs n w))) \<subseteq>
     c_data ` set (verification_data_cache w) \<union> snd ` set recs"
proof (induction recs arbitrary: n w)
  case Nil
  show ?case by simp
next
  case (Cons rec recs)
  let ?w = "migrate_step H (gen_random_uuid n) now rec w"
  have "c_data ` set (verification_data_cache ?w) \<subseteq>
      insert (snd rec) (c_data ` set (verification_data_cache w))"
    unfolding migrate_step_cache by (rule insert_cache_data)
  with Cons.IH [of "n + 1" ?w] show ?case by auto
qed

lemma migrate_loop_data:
  "distinct (map fst recs) \<Longrightarrow>
   verification_data (snd (migrate_loop H gen_random_uuid now recs n w)) =
     map (\<lambda>r. case map_of recs (d_id r) of
                 None \<Rightarrow> r
               | Some p \<Rightarrow> r\<lparr>d_data_hash := Some (H p)\<rparr>)
       (verification_data w)"
proof (induction recs arbitrary: n w)
  case Nil
  show ?case by simp
next
  case (Cons rec recs)
  obtain k p where rec: "rec = (k, p)" by (cases rec)
  from Cons.prems rec have d: "distinct (map fst recs)" and k: "map_of recs k = None"
    by (auto simp: map_of_eq_None_iff)
  show ?case
    by (simp add: Cons.IH [OF d] migrate_step_data rec k)
qed

lemma map_of_selected:
  assumes "distinct (map d_id rows)" "r \<in> set rows"
  shows "map_of (map (\<lambda>r. (d_id r, f r)) (filter P rows)) (d_id r) =
     (if P r then Some (f r) else None)"
  using assms
proof (induction rows)
  case Nil
  then show ?case by simp
next
  case (Cons a rows)
  show ?case
  proof (cases "r = a")
    case True
    from Cons.prems(1) have "d_id a \<notin> d_id ` set (filter P rows)" by auto
    then have "map_of (map (\<lambda>r. (d_id r, f r)) (filter P rows)) (d_id a) = None"
      by (simp add: map_of_eq_None_iff image_image)
    with True show ?thesis by simp
  next
    case False
    with Cons.prems(2) have r: "r \<in> set rows" by simp
    from Cons.prems(1) have d: "distinct (map d_id rows)" and na: "d_id a \<notin> d_id ` set rows"
      by simp_all
    from r have "d_id r \<in> d_id ` set rows" by (rule imageI)
    with na have ne: "d_id r \<noteq> d_id a" by metis
    from Cons.IH [OF d r] ne show ?thesis by simp
  qed
qed

lemma migrate_existing_alt:
  "migrate_existing_verification_data H gen_random_uuid now w =
     migrate_loop H gen_random_uuid now
       (map (\<lambda>r. (d_id r, the (d_data r))) (filter awaits_backfill (verification_data w))) 0 w"
proof -
  have e: "awaits_backfill = (\<lambda>r. d_data_hash r = None \<and> d_data r \<noteq> None)"
    by (simp add: fun_eq_iff awaits_backfill_def)
  show ?thesis
    unfolding migrate_existing_verification_data_def e by (rule refl)
qed

lemma migrate_existing_data:
  assumes "distinct (map d_id (verification_data w))"
  shows "verification_data (snd (migrate_existing_verification_data H gen_random_uuid now w)) =
     map (\<lambda>r. if awaits_backfill r then r\<lparr>d_data_hash := Some (H (the (d_data r)))\<rparr> else r)
       (verification_data w)"
proof -
  let ?P = awaits_backfill
  let ?recs = "map (\<lambda>r. (d_id r, the (d_data r))) (filter ?P (verification_data w))"
  have mf: "map fst ?recs = map d_id (filter ?P (verification_data w))"
    by (simp add: comp_def)
  have d: "distinct (map fst ?recs)"
    unfolding mf using assms by (rule distinct_map_filter)
  have "map (\<lambda>r. case map_of ?recs (d_id r) of
                 None \<Rightarrow> r
               | Some p \<Rightarrow> r\<lparr>d_data_hash := Some (H p)\<rparr>) (verification_data w) =
     map (\<lambda>r. if awaits_backfill r then r\<lparr>d_data_hash := Some (H (the (d_data r)))\<rparr> else r)
       (verification_data w)"
  proof (rule map_cong [OF refl])
    fix r assume "r \<in> set (verification_data w)"
    from map_of_selected [OF assms this, of "\<lambda>r. the (d_data r)" ?P]
    show "(case map_of ?recs (d_id r) of
                 None \<Rightarrow> r
               | Some p \<Rightarrow> r\<lparr>d_data_hash := Some (H p)\<rparr>) =
        (if awaits_backfill r then r\<lparr>d_data_hash := Some (H (the (d_data r)))\<rparr> else r)"
      by simp
  qed
  with migrate_loop_data [OF d, of H gen_random_uuid now 0 w] show ?thesis
    unfolding migrate_existing_alt by simp
qed

lemma migrate_existing_count:
  "fst (migrate_existing_verification_data H gen_random_uuid now w) =
     length (filter awaits_backfill (verification_data w))"
  by (simp add: migrate_existing_alt migrate_loop_count)

lemma migrate_existing_payloads:
  "snd ` set (map (\<lambda>r. (d_id r, the (d_data r)))
       (filter awaits_backfill (verification_data w))) =
     backfill_payloads w"
  by (simp add: backfill_payloads_def image_image)

lemma migrate_existing_hashes:
  "c_data_hash ` set (verification_data_cache
       (snd (migrate_existing_verification_data H gen_random_uuid now w))) =
     c_data_hash ` set (verification_data_cache w) \<union> H ` backfill_payloads w"
proof -
  have "(\<lambda>rec. H (snd rec)) ` set (map (\<lambda>r. (d_id r, the (d_data r)))
       (filter awaits_backfill (verification_data w))) =
     H ` backfill_payloads w"
    unfolding migrate_existing_payloads [symmetric] by (simp add: image_image)
  then show ?thesis
    unfolding migrate_existing_alt migrate_loop_hashes by simp
qed

lemma migrate_existing_cache_data:
  "c_data ` set (verification_data_cache
       (snd (migrate_existing_verification_data H gen_random_uuid now w))) \<subseteq>
     c_data ` set (verification_data_cache w) \<union> backfill_payloads w"
  using migrate_loop_cache_data [of H gen_random_uuid now
      "map (\<lambda>r. (d_id r, the (d_data r)))
         (filter awaits_backfill (verification_data w))" 0 w]
  unfolding migrate_existing_payloads migrate_existing_alt .

lemma migrate_existing_distinct:
  "distinct (map c_data_hash (verification_data_cache w)) \<Longrightarrow>
   distinct (map c_data_hash
     (verification_data_cache (snd (migrate_existing_verification_data H gen_random_uuid now w))))"
  by (simp add: migrate_existing_verification_data_def migrate_loop_distinct)

lemma migrate_existing_addressed:
  "\<forall>c \<in> set (verification_data_cache w). c_data_hash c = H (c_data c) \<Longrightarrow>
   \<forall>c \<in> set (verification_data_cache
       (snd (migrate_existing_verification_data H gen_random_uuid now w))).
     c_data_hash c = H (c_data c)"
  unfolding migrate_existing_verification_data_def by (rule migrate_loop_addressed)

lemma migrate_existing_prefix:
  "\<exists>new. verification_data_cache
       (snd (migrate_existing_verification_data H gen_random_uuid now w)) =
     verification_data_cache w @ new"
  unfolding migrate_existing_verification_data_def by (rule migrate_loop_prefix)

lemma migrate_existing_rerun:
  assumes "distinct (map d_id (verification_data w))"
  shows "migrate_existing_verification_data H' gen_random_uuid' now'
           (snd (migrate_existing_verification_data H gen_random_uuid now w)) =
         (0, snd (migrate_existing_verification_data H gen_random_uuid now w))"
proof -
  have "filter awaits_backfill
      (verification_data (snd (migrate_existing_verification_data H gen_random_uuid now w))) = []"
    unfolding migrate_existing_data [OF assms]
    by (auto simp: filter_empty_conv awaits_backfill_def)
  then show ?thesis
    by (simp add: migrate_existing_alt
        [of H' gen_random_uuid' now' "snd (migrate_existing_verification_data H gen_random_uuid now w)"])
qed

text \<open>
  C3. The payloads are stored by the backfill function of migration 004, the only writer of
  the cache table: each record of \<^verbatim>\<open>verification_data\<close> that has data and no hash is one
  store of its payload. The table comes with its keys (\<^verbatim>\<open>id\<close> of
  \<^verbatim>\<open>verification_data\<close> is its primary key, \<^verbatim>\<open>data_hash\<close> of the cache is unique);
  the cache is taken as this function leaves it, every entry stored under the digest of its
  own payload, which holds of the empty table and is kept; and the digest is taken to send
  no two of the payloads at hand to one value. Then a run of the function
  \<^item> processes every record awaiting the backfill, and gives each the digest of its own
    payload as hash, so that records with the same payload receive the same hash;
  \<^item> leaves, for every payload it stored, once or several times, exactly one cache entry with
    that content, stored under the digest of the payload;
  \<^item> keeps the entries the cache had, adds one entry for each digest that was new, and
    nothing for a digest that is there already: an insert for an existing hash is a no-op;
  \<^item> hands on a cache with unique hashes, each the digest of its entry's payload;
  \<^item> leaves nothing to do for a second run, which changes nothing.
\<close>

theorem migrate_existing_verification_data_stores_once:
  assumes "distinct (map d_id (verification_data w))"
    and "distinct (map c_data_hash (verification_data_cache w))"
    and "\<forall>c \<in> set (verification_data_cache w). c_data_hash c = sha256_hex (c_data c)"
    and "inj_on sha256_hex (c_data ` set (verification_data_cache w) \<union> backfill_payloads w)"
    and "w' = snd (migrate_existing_verification_data sha256_hex gen_random_uuid now w)"
  shows "fst (migrate_existing_verification_data sha256_hex gen_random_uuid now w) =
           length (filter awaits_backfill (verification_data w))
       \<and> verification_data w' =
           map (\<lambda>r. if awaits_backfill r
                     then r\<lparr>d_data_hash := Some (sha256_hex (the (d_data r)))\<rparr> else r)
             (verification_data w)
       \<and> (\<forall>p \<in> backfill_payloads w.
             length (filter (\<lambda>c. c_data c = p) (verification_data_cache w')) = 1
             \<and> (\<forall>c \<in> set (verification_data_cache w').
                   c_data c = p \<longleftrightarrow> c_data_hash c = sha256_hex p))
       \<and> (\<exists>new. verification_data_cache w' = verification_data_cache w @ new)
       \<and> length (verification_data_cache w') =
           card (c_data_hash ` set (verification_data_cache w) \<union> sha256_hex ` backfill_payloads w)
       \<and> distinct (map c_data_hash (verification_data_cache w'))
       \<and> (\<forall>c \<in> set (verification_data_cache w'). c_data_hash c = sha256_hex (c_data c))
       \<and> insert_cache_on_conflict_do_nothing id2 now2 (sha256_hex payload) payload
           (insert_cache_on_conflict_do_nothing id1 now1 (sha256_hex payload) payload
              (verification_data_cache w)) =
         insert_cache_on_conflict_do_nothing id1 now1 (sha256_hex payload) payload
           (verification_data_cache w)
       \<and> verifications w' = verifications w
       \<and> migrate_existing_verification_data sha256_hex gen_random_uuid' now' w' = (0, w')"
proof -
  let ?H = sha256_hex
  let ?c = "verification_data_cache w'"
  have cnt: "fst (migrate_existing_verification_data ?H gen_random_uuid now w) =
           length (filter awaits_backfill (verification_data w))"
    by (rule migrate_existing_count)
  have dat: "verification_data w' =
           map (\<lambda>r. if awaits_backfill r
                     then r\<lparr>d_data_hash := Some (?H (the (d_data r)))\<rparr> else r)
             (verification_data w)"
    unfolding assms(5) by (rule migrate_existing_data [OF assms(1)])
  have dis: "distinct (map c_data_hash ?c)"
    unfolding assms(5) by (rule migrate_existing_distinct [OF assms(2)])
  have adr: "\<forall>c \<in> set ?c. c_data_hash c = ?H (c_data c)"
    unfolding assms(5) by (rule migrate_existing_addressed [OF assms(3)])
  have hs: "c_data_hash ` set ?c =
      c_data_hash ` set (verification_data_cache w) \<union> ?H ` backfill_payloads w"
    unfolding assms(5) by (rule migrate_existing_hashes)
  have ds: "c_data ` set ?c \<subseteq> c_data ` set (verification_data_cache w) \<union> backfill_payloads w"
    unfolding assms(5) by (rule migrate_existing_cache_data)
  have pre: "\<exists>new. ?c = verification_data_cache w @ new"
    unfolding assms(5) by (rule migrate_existing_prefix)
  have one: "\<forall>p \<in> backfill_payloads w.
             length (filter (\<lambda>c. c_data c = p) ?c) = 1
             \<and> (\<forall>c \<in> set ?c. c_data c = p \<longleftrightarrow> c_data_hash c = ?H p)"
  proof
    fix p assume p: "p \<in> backfill_payloads w"
    have eq: "\<forall>c \<in> set ?c. c_data c = p \<longleftrightarrow> c_data_hash c = ?H p"
    proof
      fix c assume c: "c \<in> set ?c"
      with ds have "c_data c \<in> c_data ` set (verification_data_cache w) \<union> backfill_payloads w"
        by blast
      with p assms(4) have "?H (c_data c) = ?H p \<longleftrightarrow> c_data c = p"
        by (auto dest: inj_onD)
      with adr c show "c_data c = p \<longleftrightarrow> c_data_hash c = ?H p"
        by auto
    qed
    from p hs have "\<exists>c \<in> set ?c. c_data_hash c = ?H p"
      by (metis UnI2 imageE imageI)
    from unique_hash_count [OF dis this]
    have "length (filter (\<lambda>c. c_data_hash c = ?H p) ?c) = 1" .
    moreover from eq have "filter (\<lambda>c. c_data c = p) ?c = filter (\<lambda>c. c_data_hash c = ?H p) ?c"
      by (intro filter_cong) auto
    ultimately show "length (filter (\<lambda>c. c_data c = p) ?c) = 1
             \<and> (\<forall>c \<in> set ?c. c_data c = p \<longleftrightarrow> c_data_hash c = ?H p)"
      using eq by simp
  qed
  have len: "length ?c =
      card (c_data_hash ` set (verification_data_cache w) \<union> ?H ` backfill_payloads w)"
    using distinct_card [OF dis] hs by simp
  have tw: "insert_cache_on_conflict_do_nothing id2 now2 (?H payload) payload
           (insert_cache_on_conflict_do_nothing id1 now1 (?H payload) payload
              (verification_data_cache w)) =
         insert_cache_on_conflict_do_nothing id1 now1 (?H payload) payload
           (verification_data_cache w)"
    by (rule insert_cache_twice)
  have ver: "verifications w' = verifications w"
    unfolding assms(5) migrate_existing_verification_data_def
    by (rule migrate_loop_verifications)
  have re: "migrate_existing_verification_data ?H gen_random_uuid' now' w' = (0, w')"
    unfolding assms(5) by (rule migrate_existing_rerun [OF assms(1)])
  from cnt dat one pre len dis adr tw ver re show ?thesis by (intro conjI)
qed

lemma inj_on_sha0: "inj_on sha0 A"
  by (simp add: inj_on_def sha0_def)

theorem migrate_existing_verification_data_stores_once_witness:
  "fst (migrate_existing_verification_data sha0 uuid_of_nat 300 world1) = 3
   \<and> map d_data_hash (verification_data
         (snd (migrate_existing_verification_data sha0 uuid_of_nat 300 world1))) =
       [Some (sha0 ''{\"a\": 1}''), Some (sha0 ''{\"a\": 1}''), Some (sha0 ''{\"test\": \"data\"}''),
        Some ''0f'']
   \<and> length (filter (\<lambda>c. c_data c = ''{\"a\": 1}'')
         (verification_data_cache
            (snd (migrate_existing_verification_data sha0 uuid_of_nat 300 world1)))) = 1
   \<and> length (filter (\<lambda>c. c_data c = ''{\"test\": \"data\"}'')
         (verification_data_cache
            (snd (migrate_existing_verification_data sha0 uuid_of_nat 300 world1)))) = 1
   \<and> map c_data (verification_data_cache
         (snd (migrate_existing_verification_data sha0 uuid_of_nat 300 world1))) =
       [''{\"test\": \"data\"}'', ''{\"a\": 1}'']
   \<and> migrate_existing_verification_data sha0 uuid_of_nat 301
         (snd (migrate_existing_verification_data sha0 uuid_of_nat 300 world1)) =
       (0, snd (migrate_existing_verification_data sha0 uuid_of_nat 300 world1))"
proof -
  let ?w' = "snd (migrate_existing_verification_data sha0 uuid_of_nat 300 world1)"
  have a: "distinct (map d_id (verification_data world1))"
    by (simp add: world1_def fixture_ids)
  have b: "distinct (map c_data_hash (verification_data_cache world1))"
    by (simp add: world1_def)
  have c: "\<forall>c \<in> set (verification_data_cache world1). c_data_hash c = sha0 (c_data c)"
    by (simp add: world1_def)
  have d: "inj_on sha0 (c_data ` set (verification_data_cache world1) \<union> backfill_payloads world1)"
    by (rule inj_on_sha0)
  note t = migrate_existing_verification_data_stores_once [where w = world1 and w' = ?w'
      and sha256_hex = sha0 and gen_random_uuid = uuid_of_nat and now = 300
      and gen_random_uuid' = uuid_of_nat and now' = 301, OF a b c d refl]
  have p: "backfill_payloads world1 = {''{\"a\": 1}'', ''{\"test\": \"data\"}''}"
    by (auto simp: backfill_payloads_def awaits_backfill_def world1_def)
  from t [THEN conjunct1]
  have 1: "fst (migrate_existing_verification_data sha0 uuid_of_nat 300 world1) = 3"
    by (simp add: world1_def awaits_backfill_def)
  from t [THEN conjunct2, THEN conjunct1]
  have 2: "map d_data_hash (verification_data ?w') =
       [Some (sha0 ''{\"a\": 1}''), Some (sha0 ''{\"a\": 1}''), Some (sha0 ''{\"test\": \"data\"}''),
        Some ''0f'']"
    by (simp add: world1_def awaits_backfill_def)
  from t [THEN conjunct2, THEN conjunct2, THEN conjunct1]
  have 3: "length (filter (\<lambda>c. c_data c = ''{\"a\": 1}'') (verification_data_cache ?w')) = 1"
    and 4: "length (filter (\<lambda>c. c_data c = ''{\"test\": \"data\"}'')
              (verification_data_cache ?w')) = 1"
    unfolding p by blast+
  have 5: "map c_data (verification_data_cache ?w') = [''{\"test\": \"data\"}'', ''{\"a\": 1}'']"
    by code_simp
  have 6: "migrate_existing_verification_data sha0 uuid_of_nat 301 ?w' = (0, ?w')"
    by (intro t [THEN conjunct2, THEN conjunct2, THEN conjunct2, THEN conjunct2, THEN conjunct2,
          THEN conjunct2, THEN conjunct2, THEN conjunct2, THEN conjunct2])
  from 1 2 3 4 5 6 show ?thesis by (intro conjI)
qed

end
